theory Spec2Isabelle
  imports Complex_Main "HOL-Library.Monad_Syntax"
begin

section \<open>Configuration constants (src/utils/config.py)\<close>

text \<open>
  Python numbers are modelled as \<open>real\<close> wherever the source mixes them with floats
  (battery, energy, wind, position after wind drift) and as \<open>int\<close>/\<open>nat\<close> where the
  source only counts. Every bound proved below uses \<open>max\<close>/\<open>min\<close> clamps only, which
  are exact on floats as well.
\<close>

definition GRID_SIZE :: real where "GRID_SIZE = 50"
definition CELL_SIZE :: real where "CELL_SIZE = 100"
definition MAX_ALTITUDE :: real where "MAX_ALTITUDE = 12"
definition ALTITUDE_STEP :: real where "ALTITUDE_STEP = 20"
definition MAX_BUILDING_HEIGHT :: int where "MAX_BUILDING_HEIGHT = 8"

definition MAX_SPEED :: real where "MAX_SPEED = 60"
definition BATTERY_CAPACITY :: real where "BATTERY_CAPACITY = 5000"
definition ENERGY_PER_KM :: real where "ENERGY_PER_KM = 50"
definition ENERGY_PER_ALTITUDE :: real where "ENERGY_PER_ALTITUDE = 10"
definition HOVER_ENERGY :: real where "HOVER_ENERGY = 5"
definition CHARGING_RATE :: real where "CHARGING_RATE = 500"

definition MAX_STEPS_PER_EPISODE :: nat where "MAX_STEPS_PER_EPISODE = 1000"

definition ACTIONS :: "string list" where
  "ACTIONS = [''MOVE_NORTH'', ''MOVE_SOUTH'', ''MOVE_EAST'', ''MOVE_WEST'',
              ''MOVE_UP'', ''MOVE_DOWN'', ''HOVER'', ''CHARGE'']"

definition REWARD_DELIVERY_SUCCESS :: real where "REWARD_DELIVERY_SUCCESS = 1000"
definition REWARD_FAST_DELIVERY_BONUS :: real where "REWARD_FAST_DELIVERY_BONUS = 100"
definition REWARD_BATTERY_EFFICIENT :: real where "REWARD_BATTERY_EFFICIENT = 50"
definition REWARD_COLLISION :: real where "REWARD_COLLISION = - 500"
definition REWARD_BATTERY_DEPLETED :: real where "REWARD_BATTERY_DEPLETED = - 300"
definition REWARD_NO_FLY_INTERCEPTION :: real where "REWARD_NO_FLY_INTERCEPTION = - 800"
definition REWARD_STORM_CRASH :: real where "REWARD_STORM_CRASH = - 600"
definition REWARD_PAYLOAD_SPOILED :: real where "REWARD_PAYLOAD_SPOILED = - 400"
definition REWARD_TIME_PENALTY :: real where "REWARD_TIME_PENALTY = - 1"
definition REWARD_CHARGING :: real where "REWARD_CHARGING = - 50"

definition MAX_WIND_SPEED :: real where "MAX_WIND_SPEED = 40"
definition FORBIDDEN_WEATHER :: "string list" where
  "FORBIDDEN_WEATHER = [''storm'', ''heavy_rain'', ''thunderstorm'']"
definition STORM_DAMAGE_THRESHOLD :: nat where "STORM_DAMAGE_THRESHOLD = 2"
definition EXTREME_WIND_SPEED :: real where "EXTREME_WIND_SPEED = 50"

definition PAYLOAD_MAX_TIME :: real where "PAYLOAD_MAX_TIME = 1800"
definition PAYLOAD_SPOILAGE_WARNING :: real where "PAYLOAD_SPOILAGE_WARNING = 1200"

definition MIN_BATTERY_EMERGENCY :: real where "MIN_BATTERY_EMERGENCY = 5"
definition MIN_BATTERY_RETURN :: real where "MIN_BATTERY_RETURN = 20"
definition SAFETY_MAX_ALTITUDE_M :: real where "SAFETY_MAX_ALTITUDE_M = 200"
definition SAFETY_MIN_ALTITUDE_M :: real where "SAFETY_MIN_ALTITUDE_M = 10"

definition LEARNING_RATE :: real where "LEARNING_RATE = 0.1"
definition DISCOUNT_FACTOR :: real where "DISCOUNT_FACTOR = 0.95"
definition EPSILON_START :: real where "EPSILON_START = 1.0"
definition EPSILON_END :: real where "EPSILON_END = 0.01"
definition EPSILON_DECAY :: real where "EPSILON_DECAY = 0.995"


section \<open>The vehicle (src/environment/drone.py)\<close>

text \<open>
  The fields of class \<open>Drone\<close>. \<open>position\<close> is the Python list \<open>[x, y, z]\<close>; its
  components are numbers, and the horizontal ones become floats as soon as a wind vector
  is added. \<open>heading\<close> and \<open>total_distance\<close> are written by \<open>move\<close> and read by no
  decision of the program; they are left out.
\<close>

record drone =
  start_position :: "real \<times> real \<times> real"
  position :: "real \<times> real \<times> real"
  battery :: real
  cargo :: "string option"
  has_package :: bool
  payload_locked :: bool
  payload_condition :: string
  time_since_pickup :: real
  speed :: real
  is_charging :: bool
  is_crashed :: bool
  crash_reason :: "string option"
  flight_time :: nat
  steps_in_storm :: nat
  pickup_location :: "(real \<times> real) option"

text \<open>\<open>Drone.__init__\<close> stores the start position and calls \<open>reset\<close>.\<close>

definition Drone :: "real \<times> real \<times> real \<Rightarrow> drone" where
  "Drone start =
     \<lparr> start_position = start, position = start, battery = 100, cargo = None,
       has_package = False, payload_locked = False, payload_condition = ''none'',
       time_since_pickup = 0, speed = 0, is_charging = False, is_crashed = False,
       crash_reason = None, flight_time = 0, steps_in_storm = 0,
       pickup_location = None \<rparr>"

text \<open>\<open>Drone._calculate_movement_energy\<close>: 20 percent more with cargo on board.\<close>

definition calculate_movement_energy :: "drone \<Rightarrow> real \<Rightarrow> real \<Rightarrow> real" where
  "calculate_movement_energy d dx dy =
     (let distance = sqrt (dx ^ 2 + dy ^ 2) * (CELL_SIZE / 1000);
          energy = distance * ENERGY_PER_KM
      in if has_package d then energy * 1.2 else energy)"

text \<open>\<open>Drone._charge\<close>.\<close>

definition charge :: "drone \<Rightarrow> bool \<times> drone" where
  "charge d =
     (if battery d \<ge> 100 then (False, d)
      else
        let d1 = d\<lparr> is_charging := True,
                    battery := min 100 (battery d + (CHARGING_RATE / BATTERY_CAPACITY) * 100),
                    speed := 0 \<rparr>
        in (True, if battery d1 \<ge> 100 then d1\<lparr> is_charging := False \<rparr> else d1))"

text \<open>
  The part of \<open>Drone.move\<close> after the action has been decoded into a delta and an
  energy cost: wind is added, the position is clamped to the grid, the battery is
  decremented and clamped at 0.
\<close>

definition apply_motion ::
  "drone \<Rightarrow> real \<Rightarrow> real \<Rightarrow> real \<Rightarrow> real \<Rightarrow> real \<times> real \<Rightarrow> bool \<times> drone" where
  "apply_motion d dx0 dy0 dz energy_cost wind_effect =
     (let dx = dx0 + fst wind_effect;
          dy = dy0 + snd wind_effect;
          (px, py, pz) = position d;
          new_x = max 0 (min (GRID_SIZE - 1) (px + dx));
          new_y = max 0 (min (GRID_SIZE - 1) (py + dy));
          new_z = max 0 (min (MAX_ALTITUDE - 1) (pz + dz))
      in (True,
          d\<lparr> position := (new_x, new_y, new_z),
             battery := max 0 (battery d - (energy_cost / BATTERY_CAPACITY) * 100),
             speed := (if dx \<noteq> 0 \<or> dy \<noteq> 0 then MAX_SPEED else 0),
             flight_time := flight_time d + 1 \<rparr>))"

text \<open>
  \<open>Drone.move\<close>. The result is the returned success flag and the vehicle after the
  call. An action token outside the eight canonical ones falls through the
  \<open>if\<close>/\<open>elif\<close> chain and keeps the default (no delta, hover cost).
\<close>

definition move :: "drone \<Rightarrow> string \<Rightarrow> real \<times> real \<Rightarrow> bool \<times> drone" where
  "move d act wind_effect =
     (if is_crashed d \<or> is_charging d then (False, d)
      else if battery d \<le> 0 then
        (False, d\<lparr> is_crashed := True, crash_reason := Some ''battery_depleted'' \<rparr>)
      else if act = ''MOVE_NORTH'' then
        apply_motion d 0 (- 1) 0 (calculate_movement_energy d 1 0) wind_effect
      else if act = ''MOVE_SOUTH'' then
        apply_motion d 0 1 0 (calculate_movement_energy d 1 0) wind_effect
      else if act = ''MOVE_EAST'' then
        apply_motion d 1 0 0 (calculate_movement_energy d 1 0) wind_effect
      else if act = ''MOVE_WEST'' then
        apply_motion d (- 1) 0 0 (calculate_movement_energy d 1 0) wind_effect
      else if act = ''MOVE_UP'' then
        apply_motion d 0 0 1 ENERGY_PER_ALTITUDE wind_effect
      else if act = ''MOVE_DOWN'' then
        apply_motion d 0 0 (- 1) (ENERGY_PER_ALTITUDE * 0.5) wind_effect
      else if act = ''HOVER'' then
        apply_motion d 0 0 0 HOVER_ENERGY wind_effect
      else if act = ''CHARGE'' then charge d
      else apply_motion d 0 0 0 HOVER_ENERGY wind_effect)"

text \<open>\<open>Drone.update_payload_condition\<close>.\<close>

definition update_payload_condition :: "drone \<Rightarrow> real \<Rightarrow> drone" where
  "update_payload_condition d time_step =
     (if \<not> has_package d then d
      else
        let t = time_since_pickup d + time_step
        in d\<lparr> time_since_pickup := t,
                payload_condition :=
                  (if t \<ge> PAYLOAD_MAX_TIME then ''spoiled''
                   else if t \<ge> PAYLOAD_SPOILAGE_WARNING then ''warning''
                   else ''fresh'') \<rparr>)"

definition is_payload_spoiled :: "drone \<Rightarrow> bool" where
  "is_payload_spoiled d \<longleftrightarrow> payload_condition d = ''spoiled''"

text \<open>\<open>Drone.crash\<close>.\<close>

definition crash :: "drone \<Rightarrow> string \<Rightarrow> drone" where
  "crash d reason = d\<lparr> is_crashed := True, crash_reason := Some reason, speed := 0 \<rparr>"

text \<open>\<open>Drone.pickup_cargo\<close> and \<open>Drone.deliver_cargo\<close>.\<close>

definition pickup_cargo :: "drone \<Rightarrow> string \<Rightarrow> real \<times> real \<Rightarrow> bool \<times> drone" where
  "pickup_cargo d cargo_type loc =
     (if has_package d then (False, d)
      else (True, d\<lparr> cargo := Some cargo_type, has_package := True,
                      payload_locked := True, pickup_location := Some loc,
                      time_since_pickup := 0, payload_condition := ''fresh'' \<rparr>))"

definition deliver_cargo :: "drone \<Rightarrow> real \<times> real \<Rightarrow> string option \<times> drone" where
  "deliver_cargo d loc =
     (if \<not> has_package d then (None, d)
      else (cargo d, d\<lparr> payload_locked := False, cargo := None, has_package := False \<rparr>))"

text \<open>
  Every way the program mutates a vehicle between two resets: the methods above, and
  the storm counter, which \<open>CityEnvironment.step\<close> writes directly.
\<close>

datatype drone_op =
    Move string "real \<times> real"
  | UpdatePayload real
  | Crash string
  | Pickup string "real \<times> real"
  | Deliver "real \<times> real"
  | SetStormSteps nat

fun apply_op :: "drone \<Rightarrow> drone_op \<Rightarrow> drone" where
  "apply_op d (Move act w) = snd (move d act w)"
| "apply_op d (UpdatePayload dt) = update_payload_condition d dt"
| "apply_op d (Crash reason) = crash d reason"
| "apply_op d (Pickup c loc) = snd (pickup_cargo d c loc)"
| "apply_op d (Deliver loc) = snd (deliver_cargo d loc)"
| "apply_op d (SetStormSteps n) = d\<lparr> steps_in_storm := n \<rparr>"

definition run_ops :: "drone \<Rightarrow> drone_op list \<Rightarrow> drone" where
  "run_ops d ops = foldl apply_op d ops"


text \<open>
  The invariant behind the battery bounds: the reading stays within 0 and 100, and a
  charging vehicle has a positive reading (the flag is only ever set after an increment).
\<close>

definition battery_inv :: "drone \<Rightarrow> bool" where
  "battery_inv d \<longleftrightarrow>
     0 \<le> battery d \<and> battery d \<le> 100 \<and> (is_charging d \<longrightarrow> 0 < battery d)"


section \<open>The weather process (src/environment/weather.py)\<close>

datatype weather_condition =
  CLEAR | CLOUDY | WINDY | LIGHT_RAIN | HEAVY_RAIN | STORM | THUNDERSTORM

text \<open>The \<open>value\<close> of each member of the enum \<open>WeatherCondition\<close>.\<close>

fun condition_value :: "weather_condition \<Rightarrow> string" where
  "condition_value CLEAR = ''clear''"
| "condition_value CLOUDY = ''cloudy''"
| "condition_value WINDY = ''windy''"
| "condition_value LIGHT_RAIN = ''light_rain''"
| "condition_value HEAVY_RAIN = ''heavy_rain''"
| "condition_value STORM = ''storm''"
| "condition_value THUNDERSTORM = ''thunderstorm''"

record weather_system =
  wx_condition :: weather_condition
  wind_speed :: real
  wind_direction :: real
  visibility :: real

text \<open>
  The weather is stochastic. Each call of \<open>update\<close> consumes up to six draws of the
  process-wide generator; the model takes them as an argument, each a number of the unit
  interval: \<open>np.random.random()\<close> is the draw itself, \<open>np.random.uniform(a, b)\<close> is
  \<open>a + (b - a) * u\<close>, and \<open>np.random.choice(conditions, p=probs)\<close> walks the
  cumulative probabilities. No theorem below restricts the draws.
\<close>

record weather_draws =
  u_change :: real
  u_choice :: real
  u_speed :: real
  u_direction :: real
  u_gust :: real
  u_turn :: real

definition uniform :: "real \<Rightarrow> real \<Rightarrow> real \<Rightarrow> real" where
  "uniform a b u = a + (b - a) * u"

fun weighted_choice :: "('a \<times> real) list \<Rightarrow> 'a \<Rightarrow> real \<Rightarrow> 'a" where
  "weighted_choice [] dflt u = dflt"
| "weighted_choice [(c, p)] dflt u = c"
| "weighted_choice ((c, p) # rest) dflt u =
     (if u < p then c else weighted_choice rest dflt (u - p))"

text \<open>\<open>WeatherSystem._update_weather_effects\<close>.\<close>

definition update_weather_effects :: "weather_system \<Rightarrow> real \<Rightarrow> real \<Rightarrow> weather_system" where
  "update_weather_effects w us ud =
     (case wx_condition w of
        CLEAR \<Rightarrow> w\<lparr> wind_speed := uniform 5 15 us, visibility := 100 \<rparr>
      | CLOUDY \<Rightarrow> w\<lparr> wind_speed := uniform 10 20 us, visibility := 80 \<rparr>
      | WINDY \<Rightarrow> w\<lparr> wind_speed := uniform 25 40 us, visibility := 70 \<rparr>
      | LIGHT_RAIN \<Rightarrow> w\<lparr> wind_speed := uniform 15 25 us, visibility := 60 \<rparr>
      | HEAVY_RAIN \<Rightarrow> w\<lparr> wind_speed := uniform 30 45 us, visibility := 40 \<rparr>
      | STORM \<Rightarrow> w\<lparr> wind_speed := uniform 45 60 us, visibility := 20 \<rparr>
      | THUNDERSTORM \<Rightarrow> w\<lparr> wind_speed := uniform 50 70 us, visibility := 10 \<rparr>)
     \<lparr> wind_direction := uniform 0 360 ud \<rparr>"

text \<open>The transition table of \<open>WeatherSystem._change_weather\<close>.\<close>

fun transitions :: "weather_condition \<Rightarrow> (weather_condition \<times> real) list" where
  "transitions CLEAR = [(CLEAR, 0.85), (CLOUDY, 0.12), (WINDY, 0.03)]"
| "transitions CLOUDY = [(CLEAR, 0.5), (CLOUDY, 0.35), (LIGHT_RAIN, 0.1), (WINDY, 0.05)]"
| "transitions WINDY = [(CLEAR, 0.4), (CLOUDY, 0.4), (WINDY, 0.15), (STORM, 0.05)]"
| "transitions LIGHT_RAIN = [(CLOUDY, 0.6), (LIGHT_RAIN, 0.3), (HEAVY_RAIN, 0.1)]"
| "transitions HEAVY_RAIN = [(LIGHT_RAIN, 0.6), (HEAVY_RAIN, 0.3), (STORM, 0.1)]"
| "transitions STORM = [(HEAVY_RAIN, 0.6), (STORM, 0.3), (THUNDERSTORM, 0.1)]"
| "transitions THUNDERSTORM = [(STORM, 0.7), (THUNDERSTORM, 0.2), (HEAVY_RAIN, 0.1)]"

definition change_weather :: "weather_system \<Rightarrow> weather_draws \<Rightarrow> weather_system" where
  "change_weather w rnd =
     update_weather_effects
       (w\<lparr> wx_condition := weighted_choice (transitions (wx_condition w)) CLEAR (u_choice rnd) \<rparr>)
       (u_speed rnd) (u_direction rnd)"

text \<open>Python's \<open>%\<close> on floats with a positive divisor.\<close>

definition fmod :: "real \<Rightarrow> real \<Rightarrow> real" where
  "fmod x m = x - m * of_int \<lfloor>x / m\<rfloor>"

text \<open>\<open>WeatherSystem.update\<close>.\<close>

definition update_weather :: "weather_system \<Rightarrow> weather_draws \<Rightarrow> weather_system" where
  "update_weather w rnd =
     (let w1 = (if u_change rnd < 0.003 then change_weather w rnd else w);
          w2 = w1\<lparr> wind_speed := max 0 (min 80 (wind_speed w1 + uniform (- 2) 2 (u_gust rnd))) \<rparr>
      in w2\<lparr> wind_direction := fmod (wind_direction w2 + uniform (- 10) 10 (u_turn rnd)) 360 \<rparr>)"

text \<open>
  \<open>WeatherSystem.__init__\<close>: the initial condition, and wind drawn for it.
\<close>

definition WeatherSystem :: "weather_condition \<Rightarrow> real \<Rightarrow> real \<Rightarrow> weather_system" where
  "WeatherSystem c us ud =
     update_weather_effects
       \<lparr> wx_condition = c, wind_speed = 0, wind_direction = 0, visibility = 100 \<rparr> us ud"

text \<open>\<open>WeatherSystem.get_wind_effect\<close> and \<open>WeatherSystem.is_safe_to_fly\<close>.\<close>

definition get_wind_effect :: "weather_system \<Rightarrow> real \<times> real" where
  "get_wind_effect w =
     (let wind_strength = wind_speed w / MAX_WIND_SPEED;
          rad = wind_direction w * pi / 180
      in (wind_strength * cos rad * 0.5, wind_strength * sin rad * 0.5))"

definition is_safe_to_fly :: "weather_system \<Rightarrow> bool" where
  "is_safe_to_fly w \<longleftrightarrow>
     (if condition_value (wx_condition w) \<in> set FORBIDDEN_WEATHER then False
      else if wind_speed w > MAX_WIND_SPEED then False
      else True)"


section \<open>The city map (src/environment/obstacles.py)\<close>

text \<open>
  The map is generated once, from random draws, and never changes afterwards; the model
  takes the generated map as it is. \<open>height_map\<close> is the numpy array, indexed row
  (\<open>y\<close>) first. The zone-type grid and the list of buildings are read by no function
  modelled here.
\<close>

record no_fly_zone =
  center :: "int \<times> int"
  radius :: int

record city_obstacles =
  grid_size :: int
  height_map :: "int \<Rightarrow> int \<Rightarrow> int"
  hospitals :: "(int \<times> int) list"
  labs :: "(int \<times> int) list"
  charging_stations :: "(int \<times> int) list"
  no_fly_zones :: "no_fly_zone list"

text \<open>
  The coordinates passed to the queries are the vehicle's, hence possibly fractional;
  the source truncates them with \<open>int(...)\<close> before indexing, which on the non-negative
  values that pass the bounds test is the floor.
\<close>

definition is_no_fly_zone :: "city_obstacles \<Rightarrow> real \<Rightarrow> real \<Rightarrow> bool" where
  "is_no_fly_zone c x y \<longleftrightarrow>
     (\<exists>zone \<in> set (no_fly_zones c).
        sqrt ((x - of_int (fst (center zone))) ^ 2 + (y - of_int (snd (center zone))) ^ 2)
          \<le> of_int (radius zone))"

definition get_building_height :: "city_obstacles \<Rightarrow> real \<Rightarrow> real \<Rightarrow> int" where
  "get_building_height c x y =
     (if 0 \<le> x \<and> x < of_int (grid_size c) \<and> 0 \<le> y \<and> y < of_int (grid_size c)
      then height_map c \<lfloor>y\<rfloor> \<lfloor>x\<rfloor> else 0)"

definition is_collision :: "city_obstacles \<Rightarrow> real \<Rightarrow> real \<Rightarrow> real \<Rightarrow> bool" where
  "is_collision c x y altitude \<longleftrightarrow> altitude \<le> of_int (get_building_height c x y)"

definition get_min_safe_altitude :: "city_obstacles \<Rightarrow> real \<Rightarrow> real \<Rightarrow> int" where
  "get_min_safe_altitude c x y = get_building_height c x y + 1"

definition is_valid_position :: "city_obstacles \<Rightarrow> real \<Rightarrow> real \<Rightarrow> bool" where
  "is_valid_position c x y \<longleftrightarrow>
     0 \<le> x \<and> x < of_int (grid_size c) \<and> 0 \<le> y \<and> y < of_int (grid_size c)"

text \<open>
  \<open>get_random_hospital\<close> and \<open>get_random_lab\<close>; the argument is the index drawn by
  \<open>np.random.randint(0, len(...))\<close>, reduced to the range of the list.
\<close>

definition get_random_hospital :: "city_obstacles \<Rightarrow> nat \<Rightarrow> int \<times> int" where
  "get_random_hospital c i =
     (if hospitals c = [] then (0, 0) else hospitals c ! (i mod length (hospitals c)))"

definition get_random_lab :: "city_obstacles \<Rightarrow> nat \<Rightarrow> int \<times> int" where
  "get_random_lab c i =
     (if labs c = [] then (grid_size c - 1, grid_size c - 1)
      else labs c ! (i mod length (labs c)))"

text \<open>\<open>get_obstacles_in_radius\<close>, of which the program only uses the length.\<close>

definition get_obstacles_in_radius ::
  "city_obstacles \<Rightarrow> real \<Rightarrow> real \<Rightarrow> int \<Rightarrow> (real \<times> real \<times> int) list" where
  "get_obstacles_in_radius c x y r =
     concat (map (\<lambda>dx. concat (map (\<lambda>dy.
        (let nx = x + of_int dx; ny = y + of_int dy
         in if is_valid_position c nx ny \<and> get_building_height c nx ny > 0
            then [(nx, ny, get_building_height c nx ny)] else []))
        [- r .. r])) [- r .. r])"


section \<open>Observations\<close>

text \<open>
  The observation is a Python dictionary built afresh by \<open>_get_state\<close>. Its consumers
  read it partly with \<open>state[key]\<close>, which raises on a missing key, and partly with
  \<open>state.get(key, default)\<close>, so each key is modelled as an optional field: \<open>None\<close> is
  a missing key. The two neighbour tables are dictionaries from action token to value.
  The keys \<open>speed\<close>, \<open>heading\<close>, \<open>nearest_station\<close> and \<open>mission_id\<close> are read by no
  function modelled here and are left out; \<open>obstacle_nearby\<close> is a key that one rule
  looks for and the environment never writes.
\<close>

record observation =
  obs_position :: "(real \<times> real \<times> real) option"
  obs_battery :: "real option"
  obs_has_cargo :: "bool option"
  obs_target :: "(real \<times> real \<times> real) option"
  obs_relative_target :: "(real \<times> real \<times> real) option"
  obs_distance_to_target :: "real option"
  obs_nearby_obstacles :: "int option"
  obs_obstacle_nearby :: "bool option"
  obs_in_no_fly_zone :: "bool option"
  obs_building_height :: "int option"
  obs_neighbor_buildings :: "(string \<rightharpoonup> int) option"
  obs_neighbor_no_fly :: "(string \<rightharpoonup> bool) option"
  obs_weather :: "string option"
  obs_wind_speed :: "real option"
  obs_safe_to_fly :: "bool option"
  obs_step :: "nat option"
  obs_at_pickup_location :: "bool option"
  obs_at_delivery_location :: "bool option"


section \<open>The environment (src/environment/city.py)\<close>

datatype mission_status =
    IN_PROGRESS | SUCCESS | FAILED_COLLISION | FAILED_BATTERY | FAILED_TIMEOUT
  | FAILED_VIOLATION | FAILED_INTERCEPTION | FAILED_STORM | FAILED_PAYLOAD_SPOILED

fun status_value :: "mission_status \<Rightarrow> string" where
  "status_value IN_PROGRESS = ''in_progress''"
| "status_value SUCCESS = ''success''"
| "status_value FAILED_COLLISION = ''failed_collision''"
| "status_value FAILED_BATTERY = ''failed_battery''"
| "status_value FAILED_TIMEOUT = ''failed_timeout''"
| "status_value FAILED_VIOLATION = ''failed_violation''"
| "status_value FAILED_INTERCEPTION = ''failed_interception''"
| "status_value FAILED_STORM = ''failed_storm''"
| "status_value FAILED_PAYLOAD_SPOILED = ''failed_payload_spoiled''"

text \<open>
  The fields of \<open>CityEnvironment\<close>. Before the first \<open>reset\<close> the vehicle and the two
  positions are \<open>None\<close>.
\<close>

record city_environment =
  obstacles :: city_obstacles
  weather :: weather_system
  mission_id :: nat
  env_start_position :: "(real \<times> real \<times> real) option"
  target_position :: "(real \<times> real \<times> real) option"
  env_drone :: "drone option"
  current_step :: nat
  mission_status :: mission_status
  total_reward :: real
  violations :: nat
  collisions :: nat
  interceptions :: nat
  storm_crashes :: nat
  payload_spoilages :: nat

text \<open>
  The \<open>info\<close> dictionary returned by \<open>step\<close>. The two early returns fill only
  \<open>mission_status\<close> and \<open>reason\<close>; the normal return fills the other keys, of which
  the model keeps those that are not plain copies of an environment counter.
\<close>

record step_info =
  info_mission_status :: string
  info_reason :: "string option"
  info_step :: "nat option"
  info_position :: "(real \<times> real \<times> real) option"
  info_battery :: "real option"
  info_crash_reason :: "string option"

text \<open>\<open>_is_at_target\<close> and \<open>_distance_to_target\<close>, on the two positions.\<close>

definition is_at_target :: "real \<times> real \<times> real \<Rightarrow> real \<times> real \<times> real \<Rightarrow> bool" where
  "is_at_target p t =
     (case (p, t) of ((x, y, z), (tx, ty, tz)) \<Rightarrow>
        \<bar>x - tx\<bar> \<le> 1 \<and> \<bar>y - ty\<bar> \<le> 1 \<and> \<bar>z - tz\<bar> \<le> 1)"

definition distance_to_target :: "real \<times> real \<times> real \<Rightarrow> real \<times> real \<times> real \<Rightarrow> real" where
  "distance_to_target p t =
     (case (p, t) of ((x, y, z), (tx, ty, tz)) \<Rightarrow> \<bar>x - tx\<bar> + \<bar>y - ty\<bar> + \<bar>z - tz\<bar>)"

text \<open>
  \<open>_get_state\<close>. It raises when there is no vehicle or no target, which the model
  returns as \<open>None\<close>. \<open>_is_at_pickup\<close> and \<open>_is_at_delivery\<close> test for attributes
  \<open>pickup_location\<close> and \<open>delivery_location\<close> of the environment, which nothing ever
  sets, so both return false.
\<close>

definition get_state_internal :: "city_environment \<Rightarrow> observation option" where
  "get_state_internal env =
     (case (env_drone env, target_position env) of
        (Some d, Some t) \<Rightarrow>
          (case (position d, t) of ((x, y, z), (tx, ty, tz)) \<Rightarrow>
            Some \<lparr>
              obs_position = Some (x, y, z),
              obs_battery = Some (battery d),
              obs_has_cargo = Some (cargo d \<noteq> None),
              obs_target = Some t,
              obs_relative_target = Some (tx - x, ty - y, tz - z),
              obs_distance_to_target = Some (distance_to_target (position d) t),
              obs_nearby_obstacles =
                Some (int (length (get_obstacles_in_radius (obstacles env) x y 3))),
              obs_obstacle_nearby = None,
              obs_in_no_fly_zone = Some (is_no_fly_zone (obstacles env) x y),
              obs_building_height = Some (get_building_height (obstacles env) x y),
              obs_neighbor_buildings = Some
                [''MOVE_NORTH'' \<mapsto> get_building_height (obstacles env) x (y - 1),
                 ''MOVE_SOUTH'' \<mapsto> get_building_height (obstacles env) x (y + 1),
                 ''MOVE_EAST'' \<mapsto> get_building_height (obstacles env) (x + 1) y,
                 ''MOVE_WEST'' \<mapsto> get_building_height (obstacles env) (x - 1) y],
              obs_neighbor_no_fly = Some
                [''MOVE_NORTH'' \<mapsto> is_no_fly_zone (obstacles env) x (y - 1),
                 ''MOVE_SOUTH'' \<mapsto> is_no_fly_zone (obstacles env) x (y + 1),
                 ''MOVE_EAST'' \<mapsto> is_no_fly_zone (obstacles env) (x + 1) y,
                 ''MOVE_WEST'' \<mapsto> is_no_fly_zone (obstacles env) (x - 1) y],
              obs_weather = Some (condition_value (wx_condition (weather env))),
              obs_wind_speed = Some (wind_speed (weather env)),
              obs_safe_to_fly = Some (is_safe_to_fly (weather env)),
              obs_step = Some (current_step env),
              obs_at_pickup_location = Some False,
              obs_at_delivery_location = Some False \<rparr>)
      | _ \<Rightarrow> None)"

text \<open>
  \<open>get_state\<close>, the public variant: without a vehicle it returns a short dictionary
  (which lacks, among others, \<open>in_no_fly_zone\<close>, \<open>nearby_obstacles\<close> and
  \<open>relative_target\<close>), otherwise the full observation.
\<close>

definition get_state :: "city_environment \<Rightarrow> observation option" where
  "get_state env =
     (case env_drone env of
        None \<Rightarrow>
          Some \<lparr>
            obs_position = Some (0, 0, 0),
            obs_battery = Some 100,
            obs_has_cargo = Some False,
            obs_target = Some (case target_position env of Some t \<Rightarrow> t | None \<Rightarrow> (0, 0, 0)),
            obs_relative_target = None,
            obs_distance_to_target = Some 0,
            obs_nearby_obstacles = None,
            obs_obstacle_nearby = None,
            obs_in_no_fly_zone = None,
            obs_building_height = None,
            obs_neighbor_buildings = None,
            obs_neighbor_no_fly = None,
            obs_weather = Some (condition_value (wx_condition (weather env))),
            obs_wind_speed = None,
            obs_safe_to_fly = Some (is_safe_to_fly (weather env)),
            obs_step = Some (current_step env),
            obs_at_pickup_location = None,
            obs_at_delivery_location = None \<rparr>
      | Some d \<Rightarrow> get_state_internal env)"

text \<open>
  \<open>CityEnvironment.__init__\<close> on a generated map and an initial weather, and \<open>reset\<close>.
  The two arguments of \<open>reset\<close> are the indices drawn for the hospital and the lab.
\<close>

definition CityEnvironment :: "city_obstacles \<Rightarrow> weather_system \<Rightarrow> city_environment" where
  "CityEnvironment c w =
     \<lparr> obstacles = c, weather = w, mission_id = 0, env_start_position = None,
       target_position = None, env_drone = None, current_step = 0,
       mission_status = IN_PROGRESS, total_reward = 0, violations = 0, collisions = 0,
       interceptions = 0, storm_crashes = 0, payload_spoilages = 0 \<rparr>"

definition reset :: "city_environment \<Rightarrow> nat \<Rightarrow> nat \<Rightarrow> observation option \<times> city_environment" where
  "reset env i j =
     (let (sx, sy) = get_random_hospital (obstacles env) i;
          (tx, ty) = get_random_lab (obstacles env) j;
          start_alt = get_min_safe_altitude (obstacles env) (of_int sx) (of_int sy);
          start = (of_int sx, of_int sy, of_int start_alt);
          target_alt = get_min_safe_altitude (obstacles env) (of_int tx) (of_int ty);
          target = (of_int tx, of_int ty, of_int target_alt);
          d = snd (pickup_cargo (Drone start) ''blood_sample'' (of_int sx, of_int sy));
          env' = env\<lparr> mission_id := mission_id env + 1,
                      env_start_position := Some start,
                      target_position := Some target,
                      env_drone := Some d,
                      current_step := 0,
                      mission_status := IN_PROGRESS,
                      total_reward := 0, violations := 0, collisions := 0,
                      interceptions := 0, storm_crashes := 0, payload_spoilages := 0 \<rparr>
      in (get_state_internal env', env'))"


text \<open>
  \<open>CityEnvironment.step\<close>. The local variables \<open>reward\<close> and \<open>done\<close> of one call,
  together with the vehicle and the environment as mutated so far, form a \<open>tick\<close>;
  each block of the method body is one function on ticks, in the order of the source.
\<close>

record tick =
  tk_env :: city_environment
  tk_drone :: drone
  tk_reward :: real
  tk_done :: bool

text \<open>"Execute action" and the handling of a failed move (lines 191 to 205).\<close>

definition move_stage :: "tick \<Rightarrow> string \<Rightarrow> real \<times> real \<Rightarrow> tick" where
  "move_stage tk act wind_effect =
     (let (success, d) = move (tk_drone tk) act wind_effect;
          tk1 = tk\<lparr> tk_drone := d \<rparr>
      in if \<not> success then
           (if is_crashed d then
              (if crash_reason d = Some ''battery_depleted'' then
                 tk1\<lparr> tk_reward := REWARD_BATTERY_DEPLETED, tk_done := True,
                      tk_env := (tk_env tk)\<lparr> mission_status := FAILED_BATTERY \<rparr> \<rparr>
               else
                 tk1\<lparr> tk_reward := REWARD_COLLISION, tk_done := True,
                      tk_env := (tk_env tk)\<lparr> mission_status := FAILED_COLLISION \<rparr> \<rparr>)
            else tk1)
         else tk1)"

text \<open>CHECK 3, structural collision (lines 214 to 225).\<close>

definition collision_stage :: "tick \<Rightarrow> tick" where
  "collision_stage tk =
     (case position (tk_drone tk) of (x, y, z) \<Rightarrow>
        if is_collision (obstacles (tk_env tk)) x y z then
          tk\<lparr> tk_drone := crash (tk_drone tk) ''collision'',
               tk_reward := REWARD_COLLISION, tk_done := True,
               tk_env := (tk_env tk)\<lparr> mission_status := FAILED_COLLISION,
                                       collisions := collisions (tk_env tk) + 1 \<rparr> \<rparr>
        else tk)"

text \<open>CHECK 4, no-fly interception (lines 227 to 237).\<close>

definition no_fly_stage :: "tick \<Rightarrow> tick" where
  "no_fly_stage tk =
     (case position (tk_drone tk) of (x, y, z) \<Rightarrow>
        if is_no_fly_zone (obstacles (tk_env tk)) x y then
          tk\<lparr> tk_drone := crash (tk_drone tk) ''no_fly_interception'',
               tk_reward := REWARD_NO_FLY_INTERCEPTION, tk_done := True,
               tk_env := (tk_env tk)\<lparr> mission_status := FAILED_INTERCEPTION,
                                       interceptions := interceptions (tk_env tk) + 1 \<rparr> \<rparr>
        else tk)"

text \<open>CHECK 5, storm accumulation (lines 239 to 255).\<close>

definition storm_stage :: "tick \<Rightarrow> tick" where
  "storm_stage tk =
     (if condition_value (wx_condition (weather (tk_env tk))) \<in> set [''storm'', ''thunderstorm'']
      then
        (let d = (tk_drone tk)\<lparr> steps_in_storm := steps_in_storm (tk_drone tk) + 1 \<rparr>
         in if steps_in_storm d \<ge> STORM_DAMAGE_THRESHOLD then
              tk\<lparr> tk_drone := crash d ''storm_damage'',
                   tk_reward := REWARD_STORM_CRASH, tk_done := True,
                   tk_env := (tk_env tk)\<lparr> mission_status := FAILED_STORM,
                                           storm_crashes := storm_crashes (tk_env tk) + 1 \<rparr> \<rparr>
            else tk\<lparr> tk_drone := d \<rparr>)
      else tk\<lparr> tk_drone := (tk_drone tk)\<lparr> steps_in_storm := 0 \<rparr> \<rparr>)"

text \<open>
  Target arrival and delivery (lines 257 to 293). \<open>if delivered:\<close> is Python truth of
  the returned cargo name: neither \<open>None\<close> nor the empty string.
\<close>

definition target_stage :: "tick \<Rightarrow> real \<times> real \<times> real \<Rightarrow> tick" where
  "target_stage tk target =
     (if is_at_target (position (tk_drone tk)) target then
        (let (delivered, d) = deliver_cargo (tk_drone tk) (fst target, fst (snd target));
             tk1 = tk\<lparr> tk_drone := d \<rparr>
         in if delivered \<noteq> None \<and> delivered \<noteq> Some [] then
              (let delivery_time = real (current_step (tk_env tk));
                   time_ratio = delivery_time / real MAX_STEPS_PER_EPISODE;
                   time_bonus = REWARD_FAST_DELIVERY_BONUS * (1 - time_ratio);
                   battery_bonus = REWARD_BATTERY_EFFICIENT * (battery d / 100)
               in tk1\<lparr> tk_reward := REWARD_DELIVERY_SUCCESS + time_bonus + battery_bonus,
                       tk_done := True,
                       tk_env := (tk_env tk)\<lparr> mission_status := SUCCESS \<rparr> \<rparr>)
            else tk1)
      else tk)"

text \<open>Time penalty and charging penalty (lines 295 to 301).\<close>

definition penalty_stage :: "tick \<Rightarrow> string \<Rightarrow> tick" where
  "penalty_stage tk act =
     (let tk1 = (if \<not> tk_done tk then tk\<lparr> tk_reward := tk_reward tk + REWARD_TIME_PENALTY \<rparr>
                 else tk)
      in if act = ''CHARGE'' then tk1\<lparr> tk_reward := tk_reward tk1 + REWARD_CHARGING \<rparr>
         else tk1)"

text \<open>The timeout check (lines 303 to 307).\<close>

definition timeout_stage :: "tick \<Rightarrow> tick" where
  "timeout_stage tk =
     (if current_step (tk_env tk) \<ge> MAX_STEPS_PER_EPISODE then
        tk\<lparr> tk_done := True, tk_reward := REWARD_COLLISION,
             tk_env := (tk_env tk)\<lparr> mission_status := FAILED_TIMEOUT \<rparr> \<rparr>
      else tk)"

text \<open>
  The blocks between the move and the end of the method run one after the other; none
  of them is guarded by \<open>done\<close> except the time penalty.
\<close>

definition flight_stages :: "tick \<Rightarrow> string \<Rightarrow> real \<times> real \<Rightarrow> real \<times> real \<times> real \<Rightarrow> tick" where
  "flight_stages tk act wind_effect target =
     timeout_stage
       (penalty_stage
          (target_stage
             (storm_stage (no_fly_stage (collision_stage (move_stage tk act wind_effect))))
             target)
          act)"

definition early_info :: "mission_status \<Rightarrow> string \<Rightarrow> step_info" where
  "early_info st reason =
     \<lparr> info_mission_status = status_value st, info_reason = Some reason, info_step = None,
       info_position = None, info_battery = None, info_crash_reason = None \<rparr>"

definition full_info :: "city_environment \<Rightarrow> drone \<Rightarrow> step_info" where
  "full_info env d =
     \<lparr> info_mission_status = status_value (mission_status env), info_reason = None,
       info_step = Some (current_step env), info_position = Some (position d),
       info_battery = Some (battery d),
       info_crash_reason = (if is_crashed d then crash_reason d else None) \<rparr>"

text \<open>
  The result of \<open>step\<close> is the returned tuple together with the environment after the
  call; \<open>None\<close> stands for the exception raised when there is no vehicle or no target
  (a \<open>step\<close> before the first \<open>reset\<close>).
\<close>

definition step ::
  "city_environment \<Rightarrow> string \<Rightarrow> weather_draws \<Rightarrow>
     (observation \<times> real \<times> bool \<times> step_info \<times> city_environment) option" where
  "step env act rnd =
     (case (env_drone env, target_position env) of
        (Some d0, Some target) \<Rightarrow>
          (let env1 = env\<lparr> current_step := current_step env + 1,
                           weather := update_weather (weather env) rnd \<rparr>;
               d1 = update_payload_condition d0 1;
               wind_effect = get_wind_effect (weather env1)
           in if is_payload_spoiled d1 then
                (let env2 = env1\<lparr> env_drone := Some d1,
                                   mission_status := FAILED_PAYLOAD_SPOILED,
                                   payload_spoilages := payload_spoilages env1 + 1 \<rparr>
                 in map_option
                      (\<lambda>obs. (obs, REWARD_PAYLOAD_SPOILED, True,
                              early_info FAILED_PAYLOAD_SPOILED ''payload_spoiled'', env2))
                      (get_state_internal env2))
              else if wind_speed (weather env1) \<ge> EXTREME_WIND_SPEED then
                (let env2 = env1\<lparr> env_drone := Some (crash d1 ''storm_damage''),
                                   mission_status := FAILED_STORM,
                                   storm_crashes := storm_crashes env1 + 1 \<rparr>
                 in map_option
                      (\<lambda>obs. (obs, REWARD_STORM_CRASH, True,
                              early_info FAILED_STORM ''extreme_weather'', env2))
                      (get_state_internal env2))
              else
                (let tk = flight_stages
                            \<lparr> tk_env = env1, tk_drone = d1, tk_reward = 0, tk_done = False \<rparr>
                            act wind_effect target;
                     env2 = (tk_env tk)\<lparr> env_drone := Some (tk_drone tk),
                                          total_reward := total_reward (tk_env tk) + tk_reward tk \<rparr>
                 in map_option
                      (\<lambda>obs. (obs, tk_reward tk, tk_done tk, full_info env2 (tk_drone tk), env2))
                      (get_state_internal env2)))
      | _ \<Rightarrow> None)"


section \<open>The rule engine (src/ai/logic_engine.py)\<close>

datatype rule_type = SAFETY | EFFICIENCY | MISSION

text \<open>
  A \<open>Rule\<close>. Its condition is a Python callable on the observation; \<open>None\<close> is the
  exception it raises when it reads a missing key with \<open>state[key]\<close>. The
  \<open>description\<close> text is carried along by the source and read by no decision.
\<close>

record rule =
  name :: string
  rule_type :: rule_type
  condition :: "observation \<Rightarrow> bool option"
  action :: string
  priority :: int

text \<open>\<open>state.get(key, default)\<close> on an optional field.\<close>

definition get_default :: "'a option \<Rightarrow> 'a \<Rightarrow> 'a" where
  "get_default v dflt = (case v of None \<Rightarrow> dflt | Some x \<Rightarrow> x)"

text \<open>
  The thirteen rules of \<open>_load_safety_rules\<close>, \<open>_load_efficiency_rules\<close> and
  \<open>_load_mission_rules\<close>. Python's \<open>and\<close> and \<open>or\<close> evaluate their right operand
  only when needed, so a key is read (and can be missing) only on that path.
\<close>

definition critical_battery_rule :: rule where
  "critical_battery_rule =
     \<lparr> name = ''critical_battery'', rule_type = SAFETY,
       condition = (\<lambda>s. do { b \<leftarrow> obs_battery s; Some (b \<le> MIN_BATTERY_EMERGENCY) }),
       action = ''HOVER'', priority = 100 \<rparr>"

definition return_to_base_rule :: rule where
  "return_to_base_rule =
     \<lparr> name = ''return_to_base'', rule_type = SAFETY,
       condition = (\<lambda>s. do {
          b \<leftarrow> obs_battery s;
          if b \<le> MIN_BATTERY_RETURN then do { c \<leftarrow> obs_has_cargo s; Some (\<not> c) }
          else Some False }),
       action = ''return_to_base'', priority = 90 \<rparr>"

definition bad_weather_rule :: rule where
  "bad_weather_rule =
     \<lparr> name = ''bad_weather'', rule_type = SAFETY,
       condition = (\<lambda>s. do { f \<leftarrow> obs_safe_to_fly s; Some (\<not> f) }),
       action = ''HOVER'', priority = 95 \<rparr>"

definition no_fly_zone_rule :: rule where
  "no_fly_zone_rule =
     \<lparr> name = ''no_fly_zone'', rule_type = SAFETY,
       condition = (\<lambda>s. obs_in_no_fly_zone s),
       action = ''avoid_area'', priority = 85 \<rparr>"

definition safe_altitude_rule :: rule where
  "safe_altitude_rule =
     \<lparr> name = ''safe_altitude'', rule_type = SAFETY,
       condition = (\<lambda>s. do {
          p \<leftarrow> obs_position s;
          Some (snd (snd p) * ALTITUDE_STEP > SAFETY_MAX_ALTITUDE_M \<or>
                snd (snd p) * ALTITUDE_STEP < SAFETY_MIN_ALTITUDE_M) }),
       action = ''adjust_altitude'', priority = 80 \<rparr>"

definition avoid_obstacles_rule :: rule where
  "avoid_obstacles_rule =
     \<lparr> name = ''avoid_obstacles'', rule_type = SAFETY,
       condition = (\<lambda>s. Some (get_default (obs_nearby_obstacles s) 0 > 0 \<or>
                              get_default (obs_obstacle_nearby s) False)),
       action = ''evade'', priority = 88 \<rparr>"

definition direct_path_rule :: rule where
  "direct_path_rule =
     \<lparr> name = ''direct_path'', rule_type = EFFICIENCY,
       condition = (\<lambda>s. do {
          b \<leftarrow> obs_battery s;
          if b > 50 then do {
            n \<leftarrow> obs_nearby_obstacles s;
            if n = 0 then obs_safe_to_fly s else Some False }
          else Some False }),
       action = ''move_direct'', priority = 30 \<rparr>"

definition conserve_energy_rule :: rule where
  "conserve_energy_rule =
     \<lparr> name = ''conserve_energy'', rule_type = EFFICIENCY,
       condition = (\<lambda>s. do { b \<leftarrow> obs_battery s; Some (b < 40) }),
       action = ''conserve_energy'', priority = 40 \<rparr>"

definition optimal_altitude_rule :: rule where
  "optimal_altitude_rule =
     \<lparr> name = ''optimal_altitude'', rule_type = EFFICIENCY,
       condition = (\<lambda>s.
          if get_default (obs_wind_speed s) 0 > 15
          then do { p \<leftarrow> obs_position s; Some (snd (snd p) < 80) }
          else Some False),
       action = ''climb_higher'', priority = 25 \<rparr>"

definition pickup_cargo_rule :: rule where
  "pickup_cargo_rule =
     \<lparr> name = ''pickup_cargo'', rule_type = MISSION,
       condition = (\<lambda>s. do {
          c \<leftarrow> obs_has_cargo s;
          if \<not> c then do {
            p \<leftarrow> obs_at_pickup_location s;
            if p then do { b \<leftarrow> obs_battery s; Some (b > MIN_BATTERY_RETURN + 20) }
            else Some False }
          else Some False }),
       action = ''pickup'', priority = 60 \<rparr>"

definition deliver_cargo_rule :: rule where
  "deliver_cargo_rule =
     \<lparr> name = ''deliver_cargo'', rule_type = MISSION,
       condition = (\<lambda>s. do {
          c \<leftarrow> obs_has_cargo s;
          if c then obs_at_delivery_location s else Some False }),
       action = ''deliver'', priority = 65 \<rparr>"

definition go_to_pickup_rule :: rule where
  "go_to_pickup_rule =
     \<lparr> name = ''go_to_pickup'', rule_type = MISSION,
       condition = (\<lambda>s. do {
          c \<leftarrow> obs_has_cargo s;
          if \<not> c then do {
            p \<leftarrow> obs_at_pickup_location s;
            if \<not> p then do { b \<leftarrow> obs_battery s; Some (b > MIN_BATTERY_RETURN + 30) }
            else Some False }
          else Some False }),
       action = ''move_to_pickup'', priority = 50 \<rparr>"

definition go_to_delivery_rule :: rule where
  "go_to_delivery_rule =
     \<lparr> name = ''go_to_delivery'', rule_type = MISSION,
       condition = (\<lambda>s. do {
          c \<leftarrow> obs_has_cargo s;
          if c then do { p \<leftarrow> obs_at_delivery_location s; Some (\<not> p) }
          else Some False }),
       action = ''move_to_delivery'', priority = 55 \<rparr>"

text \<open>
  The engine holds the list of rules. \<open>add_rule\<close> appends and re-sorts by descending
  priority; Python's sort is stable also with \<open>reverse=True\<close>, as is \<open>sort_key\<close> on
  the negated priority.
\<close>

record logic_engine =
  rules :: "rule list"

definition add_rule :: "logic_engine \<Rightarrow> rule \<Rightarrow> logic_engine" where
  "add_rule e r = e\<lparr> rules := sort_key (\<lambda>x. - priority x) (rules e @ [r]) \<rparr>"

definition LogicEngine :: logic_engine where
  "LogicEngine =
     foldl add_rule \<lparr> rules = [] \<rparr>
       [critical_battery_rule, return_to_base_rule, bad_weather_rule, no_fly_zone_rule,
        safe_altitude_rule, avoid_obstacles_rule,
        direct_path_rule, conserve_energy_rule, optimal_altitude_rule,
        pickup_cargo_rule, deliver_cargo_rule, go_to_pickup_rule, go_to_delivery_rule]"

text \<open>
  \<open>evaluate_rules\<close>: a condition that raises is caught and counted as not triggered.
\<close>

definition evaluate_rules :: "logic_engine \<Rightarrow> observation \<Rightarrow> (rule \<times> bool) list" where
  "evaluate_rules e s =
     map (\<lambda>r. (r, case condition r s of None \<Rightarrow> False | Some t \<Rightarrow> t)) (rules e)"

definition get_triggered_rules :: "logic_engine \<Rightarrow> observation \<Rightarrow> rule list" where
  "get_triggered_rules e s = map fst (filter snd (evaluate_rules e s))"

definition get_recommended_action :: "logic_engine \<Rightarrow> observation \<Rightarrow> string \<times> rule option" where
  "get_recommended_action e s =
     (case get_triggered_rules e s of
        [] \<Rightarrow> (''continue'', None)
      | top_rule # rest \<Rightarrow> (action top_rule, Some top_rule))"

text \<open>
  \<open>_action_violates_rule\<close>: the exemption of the three waiting actions comes first,
  then the two predictive checks, then the static table.
\<close>

definition static_violations :: "string \<Rightarrow> string list" where
  "static_violations rule_name =
     (if rule_name = ''critical_battery'' then
        [''MOVE_UP'', ''HOVER'', ''MOVE_NORTH'', ''MOVE_SOUTH'', ''MOVE_EAST'', ''MOVE_WEST'']
      else if rule_name = ''bad_weather'' then
        [''MOVE_UP'', ''MOVE_NORTH'', ''MOVE_SOUTH'', ''MOVE_EAST'', ''MOVE_WEST'']
      else [])"

definition enters_no_fly :: "string \<Rightarrow> observation \<Rightarrow> bool" where
  "enters_no_fly act s =
     get_default (get_default (obs_neighbor_no_fly s) Map.empty act) False"

definition hits_building :: "string \<Rightarrow> observation \<Rightarrow> bool" where
  "hits_building act s =
     (let next_building_height = get_default (get_default (obs_neighbor_buildings s) Map.empty act) 0;
          curr_z = snd (snd (get_default (obs_position s) (0, 0, 0)))
      in (act \<in> set [''MOVE_NORTH'', ''MOVE_SOUTH'', ''MOVE_EAST'', ''MOVE_WEST''] \<and>
          curr_z \<le> of_int next_building_height) \<or>
         (act = ''MOVE_DOWN'' \<and>
          curr_z - 1 \<le> of_int (get_default (obs_building_height s) 0)))"

definition action_violates_rule :: "string \<Rightarrow> rule \<Rightarrow> observation \<Rightarrow> bool" where
  "action_violates_rule act r s =
     (if act \<in> set [''HOVER'', ''CHARGE'', ''wait''] then False
      else if name r = ''no_fly_zone'' \<and> enters_no_fly act s then True
      else if name r = ''avoid_obstacles'' \<and> hits_building act s then True
      else act \<in> set (static_violations (name r)))"

text \<open>
  \<open>is_action_safe\<close> calls each safety rule's condition directly, outside any
  \<open>try\<close>, so an exception of a condition leaves the method: the result is \<open>None\<close>.
\<close>

fun violated_rules_loop :: "rule list \<Rightarrow> observation \<Rightarrow> string \<Rightarrow> rule list \<Rightarrow> rule list option" where
  "violated_rules_loop [] s act violated = Some violated"
| "violated_rules_loop (r # rs) s act violated =
     (case condition r s of
        None \<Rightarrow> None
      | Some triggered \<Rightarrow>
          violated_rules_loop rs s act
            (if triggered \<and> action_violates_rule act r s then violated @ [r] else violated))"

definition is_action_safe :: "logic_engine \<Rightarrow> observation \<Rightarrow> string \<Rightarrow> (bool \<times> rule list) option" where
  "is_action_safe e s act =
     (let safety_rules = filter (\<lambda>r. rule_type r = SAFETY) (rules e)
      in map_option (\<lambda>violated. (violated = [], violated))
           (violated_rules_loop safety_rules s act []))"

text \<open>\<open>get_valid_actions\<close>.\<close>

fun safe_actions_loop :: "logic_engine \<Rightarrow> observation \<Rightarrow> string list \<Rightarrow> string list \<Rightarrow> string list option" where
  "safe_actions_loop e s [] valid = Some valid"
| "safe_actions_loop e s (act # rest) valid =
     (case is_action_safe e s act of
        None \<Rightarrow> None
      | Some (is_safe, violated) \<Rightarrow>
          safe_actions_loop e s rest (if is_safe then valid @ [act] else valid))"

definition get_valid_actions :: "logic_engine \<Rightarrow> observation \<Rightarrow> string list \<Rightarrow> string list option" where
  "get_valid_actions e s all_actions =
     map_option
       (\<lambda>valid. if valid = [] \<and> ''wait'' \<in> set all_actions then valid @ [''wait''] else valid)
       (safe_actions_loop e s all_actions [])"


text \<open>
  The keys that the conditions of the six safety rules read with \<open>state[key]\<close>. Every
  observation built by \<open>_get_state\<close> has them.
\<close>

definition has_safety_keys :: "observation \<Rightarrow> bool" where
  "has_safety_keys s \<longleftrightarrow>
     obs_battery s \<noteq> None \<and> obs_has_cargo s \<noteq> None \<and> obs_safe_to_fly s \<noteq> None \<and>
     obs_in_no_fly_zone s \<noteq> None \<and> obs_position s \<noteq> None"


section \<open>The learning agent (src/ai/q_learning.py)\<close>

text \<open>
  The value table is a \<open>defaultdict\<close> of \<open>defaultdict(float)\<close>: a dictionary from
  state keys to dictionaries from action names to values, in which reading a missing
  key inserts the default. The model is a map of maps, and every read returns the
  table after the read.
\<close>

type_synonym state_key = "int \<times> int \<times> int \<times> int \<times> int \<times> int \<times> int"

type_synonym q_table = "state_key \<rightharpoonup> (string \<rightharpoonup> real)"

record q_learning_agent =
  actions :: "string list"
  learning_rate :: real
  discount_factor :: real
  q_table :: q_table
  epsilon :: real
  epsilon_min :: real
  epsilon_decay :: real
  total_updates :: nat
  episodes_trained :: nat

definition QLearningAgent :: "string list \<Rightarrow> q_learning_agent" where
  "QLearningAgent acts =
     \<lparr> actions = acts, learning_rate = LEARNING_RATE, discount_factor = DISCOUNT_FACTOR,
       q_table = Map.empty, epsilon = EPSILON_START, epsilon_min = EPSILON_END,
       epsilon_decay = EPSILON_DECAY, total_updates = 0, episodes_trained = 0 \<rparr>"

text \<open>
  \<open>get_state_key\<close>; every key is read with \<open>state[key]\<close>. \<open>int(...)\<close> of a
  non-negative float and \<open>//\<close> are floors.
\<close>

definition get_state_key :: "observation \<Rightarrow> state_key option" where
  "get_state_key s = do {
     rt \<leftarrow> obs_relative_target s;
     b \<leftarrow> obs_battery s;
     c \<leftarrow> obs_has_cargo s;
     f \<leftarrow> obs_safe_to_fly s;
     n \<leftarrow> obs_nearby_obstacles s;
     z \<leftarrow> obs_in_no_fly_zone s;
     (let dx = fst rt; dy = fst (snd rt);
          distance_bin = min (\<lfloor>\<bar>dx\<bar> + \<bar>dy\<bar>\<rfloor> div 5) 10;
          battery_bin = \<lfloor>b / 10\<rfloor>;
          has_package_bit = (if c then 1 else 0);
          weather_safe = (if f then 1 else 0);
          direction = (if \<bar>dx\<bar> > \<bar>dy\<bar> then (if dx > 0 then 0 else 4)
                       else (if dy > 0 then 2 else 6));
          obstacles_nearby = min n 5;
          in_no_fly = (if z then 1 else 0)
      in Some (distance_bin, battery_bin, has_package_bit, weather_safe, direction,
               obstacles_nearby, in_no_fly)) }"

text \<open>
  \<open>self.q_table[state_key]\<close> and \<open>self.q_table[state_key][action]\<close>: the value
  read, and the table with the defaults that the read inserted.
\<close>

definition lookup_state :: "q_table \<Rightarrow> state_key \<Rightarrow> (string \<rightharpoonup> real) \<times> q_table" where
  "lookup_state q k =
     (case q k of None \<Rightarrow> (Map.empty, q(k \<mapsto> Map.empty)) | Some m \<Rightarrow> (m, q))"

definition lookup_q :: "q_table \<Rightarrow> state_key \<Rightarrow> string \<Rightarrow> real \<times> q_table" where
  "lookup_q q k act =
     (let (m, q1) = lookup_state q k
      in case m act of None \<Rightarrow> (0, q1(k \<mapsto> m(act \<mapsto> 0))) | Some v \<Rightarrow> (v, q1))"

text \<open>\<open>get_q_value\<close>: the value and the agent after the call.\<close>

definition get_q_value ::
  "q_learning_agent \<Rightarrow> observation \<Rightarrow> string \<Rightarrow> (real \<times> q_learning_agent) option" where
  "get_q_value ag s act = do {
     k \<leftarrow> get_state_key s;
     (let (v, q') = lookup_q (q_table ag) k act in Some (v, ag\<lparr> q_table := q' \<rparr>)) }"

text \<open>
  \<open>_get_best_action\<close>: the dictionary comprehension reads the table once per
  candidate; \<open>max(q_values, key=q_values.get)\<close> keeps the first candidate of maximal
  value (a repeated candidate repeats its value, so it never displaces the first). On
  an empty candidate list \<open>np.random.choice\<close> raises.
\<close>

fun lookup_all :: "q_table \<Rightarrow> state_key \<Rightarrow> string list \<Rightarrow> (string \<times> real) list \<times> q_table" where
  "lookup_all q k [] = ([], q)"
| "lookup_all q k (act # rest) =
     (let (v, q1) = lookup_q q k act;
          (vs, q2) = lookup_all q1 k rest
      in ((act, v) # vs, q2))"

fun first_max :: "string \<Rightarrow> real \<Rightarrow> (string \<times> real) list \<Rightarrow> string" where
  "first_max best bv [] = best"
| "first_max best bv ((act, v) # rest) =
     (if v > bv then first_max act v rest else first_max best bv rest)"

definition get_best_action ::
  "q_learning_agent \<Rightarrow> observation \<Rightarrow> string list \<Rightarrow> (string \<times> q_learning_agent) option" where
  "get_best_action ag s valid_actions = do {
     k \<leftarrow> get_state_key s;
     (let (q_values, q') = lookup_all (q_table ag) k valid_actions
      in case q_values of
           [] \<Rightarrow> None
         | (act, v) # rest \<Rightarrow> Some (first_max act v rest, ag\<lparr> q_table := q' \<rparr>)) }"

definition get_best_action_greedy ::
  "q_learning_agent \<Rightarrow> observation \<Rightarrow> string list option \<Rightarrow>
     (string \<times> q_learning_agent) option" where
  "get_best_action_greedy ag s valid_actions =
     get_best_action ag s (case valid_actions of None \<Rightarrow> actions ag | Some acts \<Rightarrow> acts)"

text \<open>
  What \<open>save\<close> writes: the table converted to a plain dictionary, with the three
  scalars.
\<close>

definition save_data :: "q_learning_agent \<Rightarrow> q_table \<times> real \<times> nat \<times> nat" where
  "save_data ag = (q_table ag, epsilon ag, episodes_trained ag, total_updates ag)"


section \<open>The hybrid controller (src/ai/hybrid_controller.py)\<close>

record hybrid_controller =
  ctl_actions :: "string list"
  q_agent :: q_learning_agent
  logic_engine :: logic_engine
  decisions_made :: nat
  safety_overrides :: nat
  logic_suggestions :: nat

definition HybridController :: "string list \<Rightarrow> hybrid_controller" where
  "HybridController acts =
     \<lparr> ctl_actions = acts, q_agent = QLearningAgent acts, logic_engine = LogicEngine,
       decisions_made = 0, safety_overrides = 0, logic_suggestions = 0 \<rparr>"

text \<open>
  The \<open>decision_info\<close> dictionary; \<open>violated_rules\<close> is a key that only the
  post-hoc veto adds.
\<close>

record decision_info =
  di_triggered_rules :: nat
  di_top_rule :: "string option"
  di_safe_actions_count :: nat
  di_recommended_action :: string
  di_decision_type :: "string option"
  di_q_values :: "(string \<times> real) list"
  di_safety_override :: bool
  di_violated_rules :: "string list option"

text \<open>
  \<open>_get_goal_oriented_action\<close>. The running minimum starts at infinity, here
  \<open>None\<close>.
\<close>

definition action_delta :: "string \<Rightarrow> real \<times> real \<times> real" where
  "action_delta act =
     (if act = ''MOVE_NORTH'' then (0, - 1, 0)
      else if act = ''MOVE_SOUTH'' then (0, 1, 0)
      else if act = ''MOVE_EAST'' then (1, 0, 0)
      else if act = ''MOVE_WEST'' then (- 1, 0, 0)
      else if act = ''MOVE_UP'' then (0, 0, 1)
      else if act = ''MOVE_DOWN'' then (0, 0, - 1)
      else (0, 0, 0))"

fun closest_action ::
  "real \<times> real \<times> real \<Rightarrow> string list \<Rightarrow> string option \<times> real option \<Rightarrow>
     string option \<times> real option" where
  "closest_action rt [] acc = acc"
| "closest_action rt (act # rest) (best_action, min_dist) =
     (case (rt, action_delta act) of ((dx, dy, dz), (adx, ady, adz)) \<Rightarrow>
        (let new_dist = \<bar>dx - adx\<bar> + \<bar>dy - ady\<bar> + \<bar>dz - adz\<bar>
         in if (case min_dist of None \<Rightarrow> True | Some m \<Rightarrow> new_dist < m)
            then closest_action rt rest (Some act, Some new_dist)
            else closest_action rt rest (best_action, min_dist)))"

definition get_goal_oriented_action :: "observation \<Rightarrow> string list \<Rightarrow> string option" where
  "get_goal_oriented_action s safe_actions =
     (case obs_relative_target s of
        None \<Rightarrow> None
      | Some (dx, dy, dz) \<Rightarrow>
          (case closest_action (dx, dy, dz) safe_actions (None, None) of
             (best_action, Some min_dist) \<Rightarrow>
               if min_dist < \<bar>dx\<bar> + \<bar>dy\<bar> + \<bar>dz\<bar> then best_action else None
           | (best_action, None) \<Rightarrow> None))"

text \<open>
  The loop that records the value of every safe action in \<open>decision_info\<close>; each
  reading goes through \<open>get_q_value\<close>.
\<close>

fun record_q_values ::
  "q_learning_agent \<Rightarrow> observation \<Rightarrow> string list \<Rightarrow>
     ((string \<times> real) list \<times> q_learning_agent) option" where
  "record_q_values ag s [] = Some ([], ag)"
| "record_q_values ag s (act # rest) =
     (case get_q_value ag s act of
        None \<Rightarrow> None
      | Some (v, ag1) \<Rightarrow>
          (case record_q_values ag1 s rest of
             None \<Rightarrow> None
           | Some (vs, ag2) \<Rightarrow> Some ((act, v) # vs, ag2)))"

text \<open>
  Step 4 of \<open>choose_action\<close>, the choice among the three branches: the action, the
  decision type, whether a safety override is flagged, the recorded values and the
  agent afterwards. \<open>None\<close> is an exception raised by the learning agent.
\<close>

definition critical_rules :: "rule list \<Rightarrow> rule list" where
  "critical_rules triggered = filter (\<lambda>r. rule_type r = SAFETY \<and> priority r \<ge> 90) triggered"

definition decide ::
  "q_learning_agent \<Rightarrow> observation \<Rightarrow> bool \<Rightarrow> rule list \<Rightarrow> string list \<Rightarrow>
     (string \<times> string \<times> bool \<times> (string \<times> real) list \<times> q_learning_agent) option" where
  "decide ag s training triggered safe_actions =
     (case critical_rules triggered of
        r # rest \<Rightarrow> Some (action r, ''safety_critical'', True, [], ag)
      | [] \<Rightarrow>
          if safe_actions \<noteq> [] then do {
            (best_q_action, ag1) \<leftarrow> get_best_action_greedy ag s (Some safe_actions);
            (q_val, ag2) \<leftarrow> get_q_value ag1 s best_q_action;
            (let (act, decision_type) =
                   (if (training \<and> epsilon ag2 > 0.3) \<or> q_val < 0.1 then
                      (case get_goal_oriented_action s safe_actions of
                         Some best_move \<Rightarrow>
                           if best_move \<noteq> [] then (best_move, ''goal_oriented_heuristic'')
                           else (best_q_action, ''hybrid_greedy'')
                       | None \<Rightarrow> (best_q_action, ''hybrid_greedy''))
                    else (best_q_action, ''hybrid_greedy''))
             in do {
               (q_values, ag3) \<leftarrow> record_q_values ag2 s safe_actions;
               Some (act, decision_type, False, q_values, ag3) }) }
          else Some (''emergency_land'', ''emergency'', True, [], ag))"

text \<open>
  \<open>choose_action\<close>: the chosen action, the decision record and the controller after
  the call; \<open>None\<close> is an exception leaving the method.
\<close>

definition choose_action ::
  "hybrid_controller \<Rightarrow> observation \<Rightarrow> bool \<Rightarrow>
     (string \<times> decision_info \<times> hybrid_controller) option" where
  "choose_action c s training =
     (let triggered = get_triggered_rules (logic_engine c) s;
          (recommended_action, top_rule) = get_recommended_action (logic_engine c) s
      in do {
        safe_actions \<leftarrow> get_valid_actions (logic_engine c) s (ctl_actions c);
        (act, decision_type, override, q_values, ag) \<leftarrow>
           decide (q_agent c) s training triggered safe_actions;
        (is_safe, violated) \<leftarrow> is_action_safe (logic_engine c) s act;
        (let veto = (\<not> is_safe \<and> decision_type \<noteq> ''emergency'');
             final_action = (if veto then ''wait'' else act);
             info = \<lparr> di_triggered_rules = length triggered,
                      di_top_rule = map_option name top_rule,
                      di_safe_actions_count = length safe_actions,
                      di_recommended_action = recommended_action,
                      di_decision_type = Some decision_type,
                      di_q_values = q_values,
                      di_safety_override = (override \<or> veto),
                      di_violated_rules = (if veto then Some (map name violated) else None) \<rparr>;
             c' = c\<lparr> q_agent := ag,
                      decisions_made := decisions_made c + 1,
                      safety_overrides := safety_overrides c + (if override then 1 else 0)
                                            + (if veto then 1 else 0),
                      logic_suggestions := logic_suggestions c +
                        (if recommended_action \<noteq> [] \<and> final_action = recommended_action
                         then 1 else 0) \<rparr>
         in Some (final_action, info, c')) })"


text \<open>
  The neighbour table of an observation has entries for the four lateral moves only,
  as \<open>_get_state\<close> builds it.
\<close>

definition cardinal_neighbors :: "observation \<Rightarrow> bool" where
  "cardinal_neighbors s \<longleftrightarrow>
     (case obs_neighbor_no_fly s of
        None \<Rightarrow> True
      | Some m \<Rightarrow> dom m \<subseteq> {''MOVE_NORTH'', ''MOVE_SOUTH'', ''MOVE_EAST'', ''MOVE_WEST''})"


text \<open>
  A history of an environment is a sequence of \<open>reset\<close> and \<open>step\<close> calls on a
  freshly constructed one. \<open>run_calls\<close> returns the observation of the last call (if
  any) and the environment after it, or \<open>None\<close> if a call raised.
\<close>

datatype env_call = CallReset nat nat | CallStep string weather_draws

fun call :: "city_environment \<Rightarrow> env_call \<Rightarrow> (observation option \<times> city_environment) option" where
  "call env (CallReset i j) = Some (reset env i j)"
| "call env (CallStep act rnd) =
     (case step env act rnd of
        None \<Rightarrow> None
      | Some (obs, reward, done, info, env') \<Rightarrow> Some (Some obs, env'))"

fun run_calls ::
  "observation option \<times> city_environment \<Rightarrow> env_call list \<Rightarrow>
     (observation option \<times> city_environment) option" where
  "run_calls s [] = Some s"
| "run_calls s (c # cs) =
     (case call (snd s) c of None \<Rightarrow> None | Some s' \<Rightarrow> run_calls s' cs)"

text \<open>
  What map generation guarantees, for any grid size: heights between 0 and
  \<open>MAX_BUILDING_HEIGHT\<close> (buildings are drawn from 2 to 8 levels, special zones from 2
  to 4), and hospitals on the map's own grid (their coordinates are drawn below
  \<open>grid_size\<close>).
\<close>

definition generated_city :: "city_obstacles \<Rightarrow> bool" where
  "generated_city c \<longleftrightarrow>
     (\<forall>row col. 0 \<le> height_map c row col \<and> height_map c row col \<le> MAX_BUILDING_HEIGHT) \<and>
     (\<forall>h \<in> set (hospitals c). 0 \<le> fst h \<and> fst h < grid_size c \<and>
                                 0 \<le> snd h \<and> snd h < grid_size c)"

text \<open>
  The largest horizontal coordinate a vehicle can have on a map: \<open>reset\<close> places it
  on the map's own grid, of size \<open>grid_size\<close>, while \<open>Drone.move\<close> clamps to the
  configured \<open>GRID_SIZE\<close>, whatever the size of the map.
\<close>

definition grid_extent :: "city_obstacles \<Rightarrow> real" where
  "grid_extent c = max (GRID_SIZE - 1) (of_int (grid_size c) - 1)"

text \<open>
  A position whose altitude is a whole level below \<open>MAX_ALTITUDE\<close>; the horizontal
  components are only required to lie between 0 and the given bound.
\<close>

definition level_position :: "real \<Rightarrow> real \<times> real \<times> real \<Rightarrow> bool" where
  "level_position hi p \<longleftrightarrow>
     (case p of (x, y, z) \<Rightarrow>
        0 \<le> x \<and> x \<le> hi \<and> 0 \<le> y \<and> y \<le> hi \<and>
        z \<in> \<int> \<and> 0 \<le> z \<and> z < MAX_ALTITUDE)"

text \<open>All three components are whole grid cells.\<close>

definition integer_cells :: "real \<times> real \<times> real \<Rightarrow> bool" where
  "integer_cells p \<longleftrightarrow> (case p of (x, y, z) \<Rightarrow> x \<in> \<int> \<and> y \<in> \<int> \<and> z \<in> \<int>)"


text \<open>
  The invariant of a history on the map \<open>c\<close>: the map is still \<open>c\<close>, the vehicle
  (if any) is at a level position within the extent of \<open>c\<close>, and the last observation
  reports the vehicle's position.
\<close>

definition level_state :: "city_obstacles \<Rightarrow> observation option \<times> city_environment \<Rightarrow> bool" where
  "level_state c s \<longleftrightarrow>
     obstacles (snd s) = c \<and>
     (\<forall>d. env_drone (snd s) = Some d \<longrightarrow> level_position (grid_extent c) (position d)) \<and>
     (\<forall>obs. fst s = Some obs \<longrightarrow>
        (\<exists>d. env_drone (snd s) = Some d \<and> obs_position obs = Some (position d)))"

text \<open>The position reported by the last observation of a history.\<close>

definition last_position ::
  "(observation option \<times> city_environment) option \<Rightarrow> (real \<times> real \<times> real) option" where
  "last_position r = (case r of Some (Some obs, env) \<Rightarrow> obs_position obs | _ \<Rightarrow> None)"


section \<open>Concrete inputs used to exercise the theorems\<close>

text \<open>
  A small flat city with one hospital, one laboratory and no restricted zone; still,
  clear weather; and draws that keep the weather as it is (no transition, no gust, no
  turn).
\<close>

definition flat_city :: city_obstacles where
  "flat_city =
     \<lparr> grid_size = 50, height_map = (\<lambda>row col. 0), hospitals = [(1, 1)],
       labs = [(40, 40)], charging_stations = [], no_fly_zones = [] \<rparr>"

definition still_weather :: weather_system where
  "still_weather =
     \<lparr> wx_condition = CLEAR, wind_speed = 0, wind_direction = 0, visibility = 100 \<rparr>"

definition calm_draws :: weather_draws where
  "calm_draws =
     \<lparr> u_change = 1 / 2, u_choice = 0, u_speed = 0, u_direction = 0,
       u_gust = 1 / 2, u_turn = 1 / 2 \<rparr>"

definition fresh_mission :: city_environment where
  "fresh_mission = snd (reset (CityEnvironment flat_city still_weather) 0 0)"


text \<open>The same mission with the cargo aged to 1850 seconds.\<close>

definition stale_mission :: city_environment where
  "stale_mission =
     fresh_mission\<lparr> env_drone :=
       map_option (\<lambda>d. d\<lparr> time_since_pickup := 1850 \<rparr>) (env_drone fresh_mission) \<rparr>"


text \<open>
  The mission at the start of its thousandth tick: 999 steps done, the vehicle still
  laden and one cell away from the target. (The target of a running mission can be
  moved: \<open>set_manual_target\<close> of the main window overwrites \<open>target_position\<close>.)
\<close>

definition last_tick_mission :: city_environment where
  "last_tick_mission =
     fresh_mission\<lparr>
       current_step := 999,
       env_drone := map_option
         (\<lambda>d. d\<lparr> position := (40, 39, 1), battery := 90, time_since_pickup := 999 \<rparr>)
         (env_drone fresh_mission) \<rparr>"


text \<open>
  The same city under the weather constructed for a clear day with the middle wind
  draw (10 km/h, blowing along the \<open>x\<close> axis).
\<close>

definition breezy_calls :: "env_call list" where
  "breezy_calls = [CallReset 0 0, CallStep ''HOVER'' calm_draws]"

definition breezy_city :: city_environment where
  "breezy_city = CityEnvironment flat_city (WeatherSystem CLEAR (1 / 2) 0)"


text \<open>
  An observation of a laden vehicle in clear weather over open ground, its battery
  forced to 3 percent; and a variant in a storm.
\<close>

definition low_battery_obs :: observation where
  "low_battery_obs =
     \<lparr> obs_position = Some (5, 5, 3), obs_battery = Some 3, obs_has_cargo = Some True,
       obs_target = Some (40, 40, 1), obs_relative_target = Some (35, 35, - 2),
       obs_distance_to_target = Some 72, obs_nearby_obstacles = Some 0,
       obs_obstacle_nearby = None, obs_in_no_fly_zone = Some False,
       obs_building_height = Some 0,
       obs_neighbor_buildings = Some [''MOVE_NORTH'' \<mapsto> 0, ''MOVE_SOUTH'' \<mapsto> 0,
                                      ''MOVE_EAST'' \<mapsto> 0, ''MOVE_WEST'' \<mapsto> 0],
       obs_neighbor_no_fly = Some [''MOVE_NORTH'' \<mapsto> False, ''MOVE_SOUTH'' \<mapsto> False,
                                   ''MOVE_EAST'' \<mapsto> False, ''MOVE_WEST'' \<mapsto> False],
       obs_weather = Some ''clear'', obs_wind_speed = Some 10, obs_safe_to_fly = Some True,
       obs_step = Some 10, obs_at_pickup_location = Some False,
       obs_at_delivery_location = Some False \<rparr>"

definition storm_obs :: observation where
  "storm_obs =
     low_battery_obs\<lparr> obs_battery := Some 80, obs_weather := Some ''storm'',
                        obs_wind_speed := Some 48, obs_safe_to_fly := Some False \<rparr>"

text \<open>
  A safety rule registered with \<open>add_rule\<close> whose condition reads
  \<open>state['obstacle_nearby']\<close>, a key that no observation of the environment carries, so
  that the condition raises on every such observation; and the engine with that rule
  added to the thirteen built-in ones.
\<close>

definition proximity_alarm_rule :: rule where
  "proximity_alarm_rule =
     \<lparr> name = ''proximity_alarm'', rule_type = SAFETY,
       condition = (\<lambda>s. obs_obstacle_nearby s),
       action = ''evade'', priority = 70 \<rparr>"

definition alarmed_engine :: logic_engine where
  "alarmed_engine = add_rule LogicEngine proximity_alarm_rule"


section \<open>Battery and charging properties of the vehicle\<close>

lemma calculate_movement_energy_nonneg: "0 \<le> calculate_movement_energy d dx dy"
  by (simp add: calculate_movement_energy_def Let_def CELL_SIZE_def ENERGY_PER_KM_def)

lemma apply_motion_battery:
  assumes "0 \<le> c" and "battery d \<le> 100"
  shows "0 \<le> battery (snd (apply_motion d dx dy dz c w))"
    and "battery (snd (apply_motion d dx dy dz c w)) \<le> 100"
  using assms
  by (simp_all add: apply_motion_def Let_def BATTERY_CAPACITY_def split: prod.splits)

lemma charge_battery:
  assumes "0 \<le> battery d" and "battery d \<le> 100"
  shows "0 \<le> battery (snd (charge d))" and "battery (snd (charge d)) \<le> 100"
  using assms
  by (simp_all add: charge_def Let_def CHARGING_RATE_def BATTERY_CAPACITY_def)

lemma charge_flag:
  assumes "0 < battery d" and "\<not> is_charging d"
  shows "is_charging (snd (charge d)) \<longrightarrow> 0 < battery (snd (charge d))"
  using assms
  by (simp add: charge_def Let_def CHARGING_RATE_def BATTERY_CAPACITY_def)

lemma move_battery_inv:
  assumes "battery_inv d"
  shows "battery_inv (snd (move d act w))"
proof -
  have en: "0 \<le> calculate_movement_energy d 1 0"
    by (rule calculate_movement_energy_nonneg)
  have mot: "battery_inv (snd (apply_motion d dx dy dz c w))"
    if "0 \<le> c" and "\<not> is_charging d" for dx dy dz c
    using that assms apply_motion_battery[of c d dx dy dz w]
    by (simp add: battery_inv_def) (simp add: apply_motion_def Let_def split: prod.splits)
  have chg: "battery_inv (snd (charge d))" if "0 < battery d" and "\<not> is_charging d"
    using that assms charge_battery[of d] charge_flag[of d]
    by (simp add: battery_inv_def)
  show ?thesis
    using assms en mot chg
    by (simp add: move_def ENERGY_PER_ALTITUDE_def HOVER_ENERGY_def)
       (simp add: battery_inv_def)
qed

lemma apply_op_battery_inv:
  assumes "battery_inv d"
  shows "battery_inv (apply_op d x)"
proof (cases x)
  case (Move act w)
  then show ?thesis using assms by (simp add: move_battery_inv)
next
  case (UpdatePayload dt)
  then show ?thesis
    using assms by (simp add: battery_inv_def update_payload_condition_def Let_def)
next
  case (Crash reason)
  then show ?thesis using assms by (simp add: battery_inv_def crash_def)
next
  case (Pickup c loc)
  then show ?thesis using assms by (simp add: battery_inv_def pickup_cargo_def)
next
  case (Deliver loc)
  then show ?thesis using assms by (simp add: battery_inv_def deliver_cargo_def)
next
  case (SetStormSteps n)
  then show ?thesis using assms by (simp add: battery_inv_def)
qed

lemma run_ops_battery_inv:
  assumes "battery_inv d"
  shows "battery_inv (run_ops d ops)"
  using assms unfolding run_ops_def
  by (induction ops arbitrary: d) (simp_all add: apply_op_battery_inv)

lemma Drone_battery_inv: "battery_inv (Drone start)"
  by (simp add: battery_inv_def Drone_def)


lemma depleted_move:
  assumes "battery_inv d" and "battery d \<le> 0" and "\<not> is_crashed d"
  shows "move d act w = (False, d\<lparr> is_crashed := True, crash_reason := Some ''battery_depleted'' \<rparr>)"
  using assms by (auto simp add: battery_inv_def move_def)

lemma climb_drains:
  "n \<le> 500 \<Longrightarrow>
   (let d = run_ops (Drone (0, 0, 0)) (replicate n (Move ''MOVE_UP'' (0, 0)))
    in battery d = 100 - real n / 5 \<and> \<not> is_crashed d \<and> \<not> is_charging d)"
proof (induction n)
  case 0
  then show ?case by (simp add: run_ops_def Drone_def)
next
  case (Suc n)
  then have ih: "battery (run_ops (Drone (0, 0, 0)) (replicate n (Move ''MOVE_UP'' (0, 0)))) = 100 - real n / 5"
    and nc: "\<not> is_crashed (run_ops (Drone (0, 0, 0)) (replicate n (Move ''MOVE_UP'' (0, 0))))"
    and nch: "\<not> is_charging (run_ops (Drone (0, 0, 0)) (replicate n (Move ''MOVE_UP'' (0, 0))))"
    and le: "n < 500"
    by (simp_all add: Let_def)
  have step: "run_ops (Drone (0, 0, 0)) (replicate (Suc n) (Move ''MOVE_UP'' (0, 0)))
      = snd (move (run_ops (Drone (0, 0, 0)) (replicate n (Move ''MOVE_UP'' (0, 0)))) ''MOVE_UP'' (0, 0))"
    proof -
    have "replicate (Suc n) (Move ''MOVE_UP'' (0, 0)) = replicate n (Move ''MOVE_UP'' (0, 0)) @ [Move ''MOVE_UP'' (0, 0)]"
      by (simp add: replicate_append_same)
    then show ?thesis unfolding run_ops_def by (simp del: replicate.simps)
  qed
  show ?case
    unfolding Let_def step using ih nc nch le
    by (simp add: move_def apply_motion_def Let_def ENERGY_PER_ALTITUDE_def
        BATTERY_CAPACITY_def field_simps split: prod.splits)
qed

text \<open>
  Claim C3. From a freshly constructed vehicle, after every sequence of operations the
  program can perform on it (moves with any wind, charging, payload ageing, crashes,
  pickup, delivery, storm counting) the battery reading lies between 0 and 100; and a
  vehicle that is not yet crashed and whose reading has reached 0 answers the next move
  attempt, whatever the action, by crashing with reason \<open>battery_depleted\<close> and an
  unchanged (non-negative) reading.
\<close>

theorem battery_stays_in_range:
  "0 \<le> battery (run_ops (Drone start) ops) \<and>
   battery (run_ops (Drone start) ops) \<le> 100 \<and>
   (battery (run_ops (Drone start) ops) \<le> 0 \<and> \<not> is_crashed (run_ops (Drone start) ops) \<longrightarrow>
      (\<forall>act w. move (run_ops (Drone start) ops) act w =
         (False, (run_ops (Drone start) ops)\<lparr> is_crashed := True,
                                               crash_reason := Some ''battery_depleted'' \<rparr>)))"
proof -
  have inv: "battery_inv (run_ops (Drone start) ops)"
    by (rule run_ops_battery_inv) (rule Drone_battery_inv)
  then show ?thesis
    using depleted_move[OF inv] by (simp add: battery_inv_def)
qed

theorem battery_stays_in_range_witness:
  "battery (run_ops (Drone (0, 0, 0)) (replicate 500 (Move ''MOVE_UP'' (0, 0)))) = 0 \<and>
   \<not> is_crashed (run_ops (Drone (0, 0, 0)) (replicate 500 (Move ''MOVE_UP'' (0, 0)))) \<and>
   is_crashed (snd (move (run_ops (Drone (0, 0, 0)) (replicate 500 (Move ''MOVE_UP'' (0, 0)))) ''MOVE_UP'' (0, 0))) \<and>
   crash_reason (snd (move (run_ops (Drone (0, 0, 0)) (replicate 500 (Move ''MOVE_UP'' (0, 0)))) ''MOVE_UP'' (0, 0)))
     = Some ''battery_depleted'' \<and>
   battery (snd (move (run_ops (Drone (0, 0, 0)) (replicate 500 (Move ''MOVE_UP'' (0, 0)))) ''MOVE_UP'' (0, 0))) = 0"
  using battery_stays_in_range[of "(0, 0, 0)" "replicate 500 (Move ''MOVE_UP'' (0, 0))"]
    climb_drains[of 500]
  by (simp add: Let_def)

lemma charging_frozen_op:
  assumes "is_charging d"
  shows "is_charging (apply_op d x) \<and> position (apply_op d x) = position d \<and>
         battery (apply_op d x) = battery d"
  using assms
  by (cases x)
     (simp_all add: move_def update_payload_condition_def Let_def crash_def
        pickup_cargo_def deliver_cargo_def)

lemma charging_frozen_ops:
  assumes "is_charging d"
  shows "is_charging (run_ops d ops) \<and> position (run_ops d ops) = position d \<and>
         battery (run_ops d ops) = battery d"
  using assms unfolding run_ops_def
proof (induction ops arbitrary: d)
  case Nil
  then show ?case by simp
next
  case (Cons x xs)
  from charging_frozen_op[OF Cons.prems, of x]
  have c: "is_charging (apply_op d x)" and p: "position (apply_op d x) = position d"
    and b: "battery (apply_op d x) = battery d"
    by simp_all
  from Cons.IH[OF c] show ?case by (simp add: p b)
qed

text \<open>
  Claim C10. When a \<open>CHARGE\<close> action reaches \<open>_charge\<close> (vehicle neither crashed nor
  charging, battery positive) and the increment leaves the battery below 100, the call
  succeeds and sets the charging flag; after that, no sequence of operations other than
  a reset clears the flag, changes the position or changes the battery, and every move
  call, \<open>CHARGE\<close> included, returns false without changing the vehicle.
\<close>

theorem charging_flag_never_cleared:
  assumes "\<not> is_crashed d" and "\<not> is_charging d" and "0 < battery d"
    and "battery d + (CHARGING_RATE / BATTERY_CAPACITY) * 100 < 100"
  shows "fst (move d ''CHARGE'' w) \<and>
         is_charging (snd (move d ''CHARGE'' w)) \<and>
         (\<forall>ops. is_charging (run_ops (snd (move d ''CHARGE'' w)) ops) \<and>
                position (run_ops (snd (move d ''CHARGE'' w)) ops) = position d \<and>
                battery (run_ops (snd (move d ''CHARGE'' w)) ops)
                  = battery d + (CHARGING_RATE / BATTERY_CAPACITY) * 100 \<and>
                (\<forall>act w'. move (run_ops (snd (move d ''CHARGE'' w)) ops) act w'
                   = (False, run_ops (snd (move d ''CHARGE'' w)) ops)))"
proof -
  have m: "move d ''CHARGE'' w = charge d"
    using assms by (simp add: move_def)
  have lt: "battery d < 100"
    using assms(4) by (simp add: CHARGING_RATE_def BATTERY_CAPACITY_def)
  have ok: "fst (charge d)" and ch: "is_charging (snd (charge d))"
    and pos: "position (snd (charge d)) = position d"
    and bat: "battery (snd (charge d)) = battery d + (CHARGING_RATE / BATTERY_CAPACITY) * 100"
    using assms(4) lt by (simp_all add: charge_def Let_def)
  show ?thesis
    unfolding m using ok ch pos bat charging_frozen_ops[OF ch]
    by (simp add: move_def)
qed

theorem charging_flag_never_cleared_witness:
  "is_charging (snd (move ((Drone (3, 4, 5))\<lparr> battery := 50 \<rparr>) ''CHARGE'' (0, 0))) \<and>
   battery (run_ops (snd (move ((Drone (3, 4, 5))\<lparr> battery := 50 \<rparr>) ''CHARGE'' (0, 0)))
              [Move ''MOVE_EAST'' (0, 0), Move ''CHARGE'' (0, 0)]) = 60 \<and>
   position (run_ops (snd (move ((Drone (3, 4, 5))\<lparr> battery := 50 \<rparr>) ''CHARGE'' (0, 0)))
              [Move ''MOVE_EAST'' (0, 0), Move ''CHARGE'' (0, 0)]) = (3, 4, 5) \<and>
   fst (move (run_ops (snd (move ((Drone (3, 4, 5))\<lparr> battery := 50 \<rparr>) ''CHARGE'' (0, 0)))
              [Move ''MOVE_EAST'' (0, 0), Move ''CHARGE'' (0, 0)]) ''CHARGE'' (0, 0)) = False"
  using charging_flag_never_cleared[of "(Drone (3, 4, 5))\<lparr> battery := 50 \<rparr>" "(0, 0)"]
  by (simp add: Drone_def CHARGING_RATE_def BATTERY_CAPACITY_def)


section \<open>The step pipeline of the environment\<close>

lemma fresh_mission_drone:
  "env_drone fresh_mission = Some (snd (pickup_cargo (Drone (1, 1, 1)) ''blood_sample'' (1, 1)))"
  by (simp add: fresh_mission_def reset_def CityEnvironment_def flat_city_def
      get_random_hospital_def get_random_lab_def get_min_safe_altitude_def
      get_building_height_def Let_def)

lemma fresh_mission_target: "target_position fresh_mission = Some (40, 40, 1)"
  by (simp add: fresh_mission_def reset_def CityEnvironment_def flat_city_def
      get_random_hospital_def get_random_lab_def get_min_safe_altitude_def
      get_building_height_def Let_def)

text \<open>
  Claim C7. In every environment state with a vehicle and a target in which cargo is
  held and more than 1800 seconds have passed since pickup (1850, say), the next
  \<open>step\<close>, whatever the action and whatever the weather draws, returns done with the
  fixed negative reward configured for spoilage and reason \<open>payload_spoiled\<close>, sets
  the mission status to \<open>FAILED_PAYLOAD_SPOILED\<close>, and runs no later stage: apart from
  the step counter, the weather, the spoilage counter and the aged payload, the
  environment and the vehicle (position, battery, crash flag) are as before the call.
\<close>

theorem spoiled_payload_terminates:
  assumes "env_drone env = Some d" and "target_position env = Some t"
    and "has_package d" and "time_since_pickup d > PAYLOAD_MAX_TIME"
  shows "\<exists>obs. step env act rnd =
           Some (obs, REWARD_PAYLOAD_SPOILED, True,
                 early_info FAILED_PAYLOAD_SPOILED ''payload_spoiled'',
                 env\<lparr> current_step := current_step env + 1,
                      weather := update_weather (weather env) rnd,
                      env_drone := Some (d\<lparr> time_since_pickup := time_since_pickup d + 1,
                                             payload_condition := ''spoiled'' \<rparr>),
                      mission_status := FAILED_PAYLOAD_SPOILED,
                      payload_spoilages := payload_spoilages env + 1 \<rparr>) \<and>
         REWARD_PAYLOAD_SPOILED < 0"
  using assms
  by (simp add: step_def Let_def update_payload_condition_def is_payload_spoiled_def
      PAYLOAD_MAX_TIME_def get_state_internal_def REWARD_PAYLOAD_SPOILED_def
      split: prod.splits)

theorem spoiled_payload_terminates_witness:
  "\<exists>obs env'. step stale_mission ''MOVE_EAST'' calm_draws =
      Some (obs, - 400, True, early_info FAILED_PAYLOAD_SPOILED ''payload_spoiled'', env') \<and>
      mission_status env' = FAILED_PAYLOAD_SPOILED \<and>
      map_option position (env_drone env') = Some (1, 1, 1) \<and>
      map_option battery (env_drone env') = Some 100"
proof -
  let ?d = "(snd (pickup_cargo (Drone (1, 1, 1)) ''blood_sample'' (1, 1)))\<lparr> time_since_pickup := 1850 \<rparr>"
  have d: "env_drone stale_mission = Some ?d"
    by (simp add: stale_mission_def fresh_mission_drone)
  have t: "target_position stale_mission = Some (40, 40, 1)"
    by (simp add: stale_mission_def fresh_mission_target)
  have c: "has_package ?d" and a: "time_since_pickup ?d > PAYLOAD_MAX_TIME"
    by (simp_all add: pickup_cargo_def Drone_def PAYLOAD_MAX_TIME_def)
  from spoiled_payload_terminates[OF d t c a, of "''MOVE_EAST''" calm_draws]
  show ?thesis
    by (auto simp add: REWARD_PAYLOAD_SPOILED_def pickup_cargo_def Drone_def)
qed

lemma calm_update: "update_weather still_weather calm_draws = still_weather"
  by (simp add: update_weather_def still_weather_def calm_draws_def uniform_def fmod_def Let_def)

lemma still_wind: "get_wind_effect still_weather = (0, 0)"
  by (simp add: get_wind_effect_def still_weather_def Let_def)

lemma last_tick_drone:
  "env_drone last_tick_mission =
     Some ((snd (pickup_cargo (Drone (1, 1, 1)) ''blood_sample'' (1, 1)))
             \<lparr> position := (40, 39, 1), battery := 90, time_since_pickup := 999 \<rparr>)"
  by (simp add: last_tick_mission_def fresh_mission_drone)

lemma last_tick_fields:
  "target_position last_tick_mission = Some (40, 40, 1)"
  "current_step last_tick_mission = 999"
  "weather last_tick_mission = still_weather"
  "obstacles last_tick_mission = flat_city"
  by (simp_all add: last_tick_mission_def fresh_mission_target)
     (simp_all add: fresh_mission_def reset_def Let_def CityEnvironment_def split: prod.splits)




lemma clamp_level:
  assumes "z \<in> \<int>" and "dz \<in> \<int>"
  shows "max 0 (min (MAX_ALTITUDE - 1) (z + dz)) \<in> \<int>"
    and "0 \<le> max 0 (min (MAX_ALTITUDE - 1) (z + dz))"
    and "max 0 (min (MAX_ALTITUDE - 1) (z + dz)) < MAX_ALTITUDE"
  using assms by (simp_all add: MAX_ALTITUDE_def max_def min_def)

lemma apply_motion_level:
  assumes "level_position hi (position d)" and "dz \<in> \<int>" and "GRID_SIZE - 1 \<le> hi"
  shows "level_position hi (position (snd (apply_motion d dx dy dz c w)))"
proof -
  have m: "min (GRID_SIZE - 1) a \<le> hi" for a
    using assms(3) by (simp add: min.coboundedI1)
  have g: "0 \<le> GRID_SIZE - 1" by (simp add: GRID_SIZE_def)
  show ?thesis
    using assms(1,2) clamp_level[of "snd (snd (position d))" dz] m g assms(3)
    by (simp add: apply_motion_def level_position_def Let_def split: prod.splits)
qed

lemma charge_position: "position (snd (charge d)) = position d"
  by (simp add: charge_def Let_def)

lemma move_level:
  assumes "level_position hi (position d)" and "GRID_SIZE - 1 \<le> hi"
  shows "level_position hi (position (snd (move d act w)))"
  using assms by (simp add: move_def apply_motion_level charge_position)

lemma update_payload_position: "position (update_payload_condition d dt) = position d"
  by (simp add: update_payload_condition_def Let_def)

lemma crash_position: "position (crash d r) = position d"
  by (simp add: crash_def)

lemma move_stage_position:
  "position (tk_drone (move_stage tk act w)) = position (snd (move (tk_drone tk) act w))"
  by (simp add: move_stage_def Let_def split: prod.splits)

lemma collision_stage_position:
  "position (tk_drone (collision_stage tk)) = position (tk_drone tk)"
  by (simp add: collision_stage_def crash_position split: prod.splits)

lemma no_fly_stage_position:
  "position (tk_drone (no_fly_stage tk)) = position (tk_drone tk)"
  by (simp add: no_fly_stage_def crash_position split: prod.splits)

lemma storm_stage_position:
  "position (tk_drone (storm_stage tk)) = position (tk_drone tk)"
  by (simp add: storm_stage_def crash_position Let_def)

lemma target_stage_position:
  "position (tk_drone (target_stage tk t)) = position (tk_drone tk)"
  by (simp add: target_stage_def deliver_cargo_def Let_def split: prod.splits)

lemma penalty_stage_drone: "tk_drone (penalty_stage tk act) = tk_drone tk"
  by (simp add: penalty_stage_def Let_def)

lemma timeout_stage_drone: "tk_drone (timeout_stage tk) = tk_drone tk"
  by (simp add: timeout_stage_def)

lemma flight_stages_position:
  "position (tk_drone (flight_stages tk act w t)) = position (snd (move (tk_drone tk) act w))"
  by (simp add: flight_stages_def timeout_stage_drone penalty_stage_drone
      target_stage_position storm_stage_position no_fly_stage_position
      collision_stage_position move_stage_position)

lemma get_state_internal_position:
  assumes "get_state_internal env = Some obs"
  shows "\<exists>d. env_drone env = Some d \<and> obs_position obs = Some (position d)"
  using assms
  by (auto simp add: get_state_internal_def split: option.splits prod.splits)



lemma get_state_internal_Some:
  assumes "env_drone env = Some d" and "target_position env = Some t"
  shows "\<exists>obs. get_state_internal env = Some obs"
  using assms by (simp add: get_state_internal_def split: prod.splits)

lemma move_stage_target:
  "target_position (tk_env (move_stage tk act w)) = target_position (tk_env tk)"
  by (simp add: move_stage_def Let_def split: prod.splits)

lemma collision_stage_target:
  "target_position (tk_env (collision_stage tk)) = target_position (tk_env tk)"
  by (simp add: collision_stage_def split: prod.splits)

lemma no_fly_stage_target:
  "target_position (tk_env (no_fly_stage tk)) = target_position (tk_env tk)"
  by (simp add: no_fly_stage_def split: prod.splits)

lemma storm_stage_target:
  "target_position (tk_env (storm_stage tk)) = target_position (tk_env tk)"
  by (simp add: storm_stage_def Let_def)

lemma target_stage_target:
  "target_position (tk_env (target_stage tk t)) = target_position (tk_env tk)"
  by (simp add: target_stage_def Let_def split: prod.splits)

lemma penalty_stage_target:
  "target_position (tk_env (penalty_stage tk act)) = target_position (tk_env tk)"
  by (simp add: penalty_stage_def Let_def)

lemma timeout_stage_target:
  "target_position (tk_env (timeout_stage tk)) = target_position (tk_env tk)"
  by (simp add: timeout_stage_def)

lemma flight_stages_target:
  "target_position (tk_env (flight_stages tk act w t)) = target_position (tk_env tk)"
  by (simp add: flight_stages_def timeout_stage_target penalty_stage_target
      target_stage_target storm_stage_target no_fly_stage_target collision_stage_target
      move_stage_target)

lemma step_flight:
  assumes "env_drone env = Some d0" and "target_position env = Some t"
    and "\<not> is_payload_spoiled (update_payload_condition d0 1)"
    and "wind_speed (update_weather (weather env) rnd) < EXTREME_WIND_SPEED"
  shows "\<exists>obs. step env act rnd =
           (let env1 = env\<lparr> current_step := current_step env + 1,
                            weather := update_weather (weather env) rnd \<rparr>;
                tk = flight_stages
                       \<lparr> tk_env = env1, tk_drone = update_payload_condition d0 1,
                         tk_reward = 0, tk_done = False \<rparr>
                       act (get_wind_effect (weather env1)) t;
                env2 = (tk_env tk)\<lparr> env_drone := Some (tk_drone tk),
                                     total_reward := total_reward (tk_env tk) + tk_reward tk \<rparr>
            in Some (obs, tk_reward tk, tk_done tk, full_info env2 (tk_drone tk), env2)) \<and>
         obs_position obs =
           Some (position (snd (move (update_payload_condition d0 1) act
                   (get_wind_effect (update_weather (weather env) rnd)))))"
proof -
  let ?env1 = "env\<lparr> current_step := current_step env + 1,
                       weather := update_weather (weather env) rnd \<rparr>"
  let ?tk = "flight_stages
               \<lparr> tk_env = ?env1, tk_drone = update_payload_condition d0 1,
                 tk_reward = 0, tk_done = False \<rparr>
               act (get_wind_effect (weather ?env1)) t"
  let ?env2 = "(tk_env ?tk)\<lparr> env_drone := Some (tk_drone ?tk),
                             total_reward := total_reward (tk_env ?tk) + tk_reward ?tk \<rparr>"
  have "target_position ?env2 = Some t"
    using assms(2) by (simp add: flight_stages_target)
  moreover have "env_drone ?env2 = Some (tk_drone ?tk)" by simp
  ultimately obtain obs where g: "get_state_internal ?env2 = Some obs"
    using get_state_internal_Some by blast
  from get_state_internal_position[OF g]
  have "obs_position obs = Some (position (tk_drone ?tk))" by simp
  then have "obs_position obs =
           Some (position (snd (move (update_payload_condition d0 1) act
                   (get_wind_effect (update_weather (weather env) rnd)))))"
    by (simp add: flight_stages_position)
  with g show ?thesis
    using assms by (auto simp add: step_def Let_def)
qed


lemma last_tick_laden:
  "update_payload_condition (the (env_drone last_tick_mission)) 1 =
     (Drone (1, 1, 1))\<lparr> position := (40, 39, 1), battery := 90, cargo := Some ''blood_sample'',
        has_package := True, payload_locked := True, pickup_location := Some (1, 1),
        time_since_pickup := 1000, payload_condition := ''fresh'' \<rparr>"
  by (simp add: last_tick_drone update_payload_condition_def pickup_cargo_def Drone_def Let_def
      PAYLOAD_MAX_TIME_def PAYLOAD_SPOILAGE_WARNING_def)

lemma last_tick_move:
  "move_stage \<lparr> tk_env = E, tk_drone = update_payload_condition (the (env_drone last_tick_mission)) 1,
                 tk_reward = 0, tk_done = False \<rparr> ''HOVER'' (0, 0) =
   \<lparr> tk_env = E,
     tk_drone = (Drone (1, 1, 1))\<lparr> position := (40, 39, 1), battery := 899 / 10,
        cargo := Some ''blood_sample'',
        has_package := True, payload_locked := True, pickup_location := Some (1, 1),
        time_since_pickup := 1000, payload_condition := ''fresh'', flight_time := 1 \<rparr>,
     tk_reward = 0, tk_done = False \<rparr>"
  by (simp add: last_tick_laden move_stage_def move_def apply_motion_def Drone_def Let_def
      GRID_SIZE_def MAX_ALTITUDE_def HOVER_ENERGY_def BATTERY_CAPACITY_def)


lemma last_tick_delivery:
  "target_stage
     (storm_stage (no_fly_stage (collision_stage
        (move_stage
           \<lparr> tk_env = last_tick_mission\<lparr> current_step := 1000, weather := still_weather \<rparr>,
             tk_drone = update_payload_condition (the (env_drone last_tick_mission)) 1,
             tk_reward = 0, tk_done = False \<rparr>
           ''HOVER'' (0, 0)))))
     (40, 40, 1) =
   \<lparr> tk_env = last_tick_mission\<lparr> current_step := 1000, weather := still_weather,
                                     mission_status := SUCCESS \<rparr>,
     tk_drone = (Drone (1, 1, 1))\<lparr> position := (40, 39, 1), battery := 899 / 10,
        cargo := None, has_package := False, payload_locked := False,
        pickup_location := Some (1, 1),
        time_since_pickup := 1000, payload_condition := ''fresh'', flight_time := 1 \<rparr>,
     tk_reward = 104495 / 100, tk_done = True \<rparr>"
  by (simp add: last_tick_move last_tick_fields Drone_def Let_def
      collision_stage_def is_collision_def get_building_height_def flat_city_def
      no_fly_stage_def is_no_fly_zone_def storm_stage_def still_weather_def
      target_stage_def is_at_target_def deliver_cargo_def
      MAX_STEPS_PER_EPISODE_def REWARD_DELIVERY_SUCCESS_def REWARD_FAST_DELIVERY_BONUS_def
      REWARD_BATTERY_EFFICIENT_def)

text \<open>
  Claim C1 (each check of a tick is terminal, the timeout check included). On the
  thousandth tick of a mission whose laden vehicle hovers one cell from the target, the
  stages up to the target-arrival check deliver the cargo and set \<open>done\<close>, the status
  \<open>SUCCESS\<close> and the reward 1044.95; the timeout check that follows is not skipped and
  replaces them: \<open>step\<close> returns the reward -500 and the status \<open>FAILED_TIMEOUT\<close>,
  although the cargo has been delivered.
\<close>

theorem timeout_overwrites_delivery:
  "(let tk = target_stage
               (storm_stage (no_fly_stage (collision_stage
                  (move_stage
                     \<lparr> tk_env = last_tick_mission\<lparr> current_step := 1000, weather := still_weather \<rparr>,
                       tk_drone = update_payload_condition (the (env_drone last_tick_mission)) 1,
                       tk_reward = 0, tk_done = False \<rparr>
                     ''HOVER'' (0, 0)))))
               (40, 40, 1)
    in tk_done tk \<and> mission_status (tk_env tk) = SUCCESS \<and> tk_reward tk = 1044.95 \<and>
       \<not> has_package (tk_drone tk)) \<and>
   (\<exists>obs info env'.
      step last_tick_mission ''HOVER'' calm_draws = Some (obs, - 500, True, info, env') \<and>
      mission_status env' = FAILED_TIMEOUT \<and>
      info_mission_status info = ''failed_timeout'' \<and>
      map_option has_package (env_drone env') = Some False)"
proof -
  have sp: "\<not> is_payload_spoiled (update_payload_condition (the (env_drone last_tick_mission)) 1)"
    by (simp add: last_tick_laden is_payload_spoiled_def)
  have ws: "wind_speed (update_weather (weather last_tick_mission) calm_draws) < EXTREME_WIND_SPEED"
    unfolding last_tick_fields calm_update
    by (simp add: still_weather_def EXTREME_WIND_SPEED_def)
  have d: "env_drone last_tick_mission = Some (the (env_drone last_tick_mission))"
    by (simp add: last_tick_drone)
  from step_flight[OF d last_tick_fields(1) sp ws, of "''HOVER''"]
  show ?thesis
    by (auto simp add: Let_def last_tick_fields calm_update still_wind flight_stages_def
        last_tick_delivery penalty_stage_def timeout_stage_def MAX_STEPS_PER_EPISODE_def
        REWARD_COLLISION_def full_info_def)
qed


section \<open>Positions reported by the environment\<close>

lemma move_stage_obstacles: "obstacles (tk_env (move_stage tk act w)) = obstacles (tk_env tk)"
  by (simp add: move_stage_def Let_def split: prod.splits)

lemma collision_stage_obstacles: "obstacles (tk_env (collision_stage tk)) = obstacles (tk_env tk)"
  by (simp add: collision_stage_def split: prod.splits)

lemma no_fly_stage_obstacles: "obstacles (tk_env (no_fly_stage tk)) = obstacles (tk_env tk)"
  by (simp add: no_fly_stage_def split: prod.splits)

lemma storm_stage_obstacles: "obstacles (tk_env (storm_stage tk)) = obstacles (tk_env tk)"
  by (simp add: storm_stage_def Let_def)

lemma target_stage_obstacles: "obstacles (tk_env (target_stage tk t)) = obstacles (tk_env tk)"
  by (simp add: target_stage_def Let_def split: prod.splits)

lemma penalty_stage_env: "tk_env (penalty_stage tk act) = tk_env tk"
  by (simp add: penalty_stage_def Let_def)

lemma timeout_stage_obstacles: "obstacles (tk_env (timeout_stage tk)) = obstacles (tk_env tk)"
  by (simp add: timeout_stage_def)

lemma flight_stages_obstacles:
  "obstacles (tk_env (flight_stages tk act w t)) = obstacles (tk_env tk)"
  by (simp add: flight_stages_def timeout_stage_obstacles penalty_stage_env
      target_stage_obstacles storm_stage_obstacles no_fly_stage_obstacles
      collision_stage_obstacles move_stage_obstacles)

text \<open>What one \<open>step\<close> does to the vehicle's position and to the map.\<close>

lemma step_level:
  assumes st: "step env act rnd = Some (obs, reward, dn, info, env')"
    and d: "env_drone env = Some d" and lv: "level_position hi (position d)"
    and hi: "GRID_SIZE - 1 \<le> hi"
  shows "obstacles env' = obstacles env \<and>
         (\<exists>d'. env_drone env' = Some d' \<and> level_position hi (position d') \<and>
               obs_position obs = Some (position d'))"
proof -
  obtain t where t: "target_position env = Some t"
    using st d by (cases "target_position env") (simp_all add: step_def)
  let ?env1 = "env\<lparr> current_step := current_step env + 1,
                       weather := update_weather (weather env) rnd \<rparr>"
  let ?d1 = "update_payload_condition d 1"
  have lv1: "level_position hi (position ?d1)"
    using lv by (simp add: update_payload_position)
  consider (spoiled) "is_payload_spoiled ?d1"
    | (storm) "\<not> is_payload_spoiled ?d1" "wind_speed (weather ?env1) \<ge> EXTREME_WIND_SPEED"
    | (flight) "\<not> is_payload_spoiled ?d1" "\<not> wind_speed (weather ?env1) \<ge> EXTREME_WIND_SPEED"
    by blast
  then show ?thesis
  proof cases
    case spoiled
    let ?env2 = "?env1\<lparr> env_drone := Some ?d1, mission_status := FAILED_PAYLOAD_SPOILED,
                         payload_spoilages := payload_spoilages ?env1 + 1 \<rparr>"
    from st d t spoiled have g: "get_state_internal ?env2 = Some obs" and e: "env' = ?env2"
      by (auto simp add: step_def Let_def)
    from get_state_internal_position[OF g] lv1 e show ?thesis by auto
  next
    case storm
    let ?env2 = "?env1\<lparr> env_drone := Some (crash ?d1 ''storm_damage''),
                         mission_status := FAILED_STORM,
                         storm_crashes := storm_crashes ?env1 + 1 \<rparr>"
    from st d t storm have g: "get_state_internal ?env2 = Some obs" and e: "env' = ?env2"
      by (auto simp add: step_def Let_def)
    from get_state_internal_position[OF g] lv1 e show ?thesis
      by (auto simp add: crash_position)
  next
    case flight
    let ?tk = "flight_stages
                 \<lparr> tk_env = ?env1, tk_drone = ?d1, tk_reward = 0, tk_done = False \<rparr>
                 act (get_wind_effect (weather ?env1)) t"
    let ?env2 = "(tk_env ?tk)\<lparr> env_drone := Some (tk_drone ?tk),
                               total_reward := total_reward (tk_env ?tk) + tk_reward ?tk \<rparr>"
    from st d t flight have g: "get_state_internal ?env2 = Some obs" and e: "env' = ?env2"
      by (auto simp add: step_def Let_def)
    have "level_position hi (position (tk_drone ?tk))"
      using lv1 hi by (simp add: flight_stages_position move_level)
    with get_state_internal_position[OF g] e show ?thesis
      by (auto simp add: flight_stages_obstacles)
  qed
qed


lemma grid_extent_bounds:
  "GRID_SIZE - 1 \<le> grid_extent c" "of_int (grid_size c) - 1 \<le> grid_extent c"
  "0 \<le> grid_extent c"
  by (simp_all add: grid_extent_def GRID_SIZE_def)

lemma get_random_hospital_on_grid:
  assumes "generated_city c"
  shows "0 \<le> fst (get_random_hospital c i) \<and>
         real_of_int (fst (get_random_hospital c i)) \<le> grid_extent c \<and>
         0 \<le> snd (get_random_hospital c i) \<and>
         real_of_int (snd (get_random_hospital c i)) \<le> grid_extent c"
proof (cases "hospitals c = []")
  case True
  then show ?thesis using grid_extent_bounds(3)[of c] by (simp add: get_random_hospital_def)
next
  case False
  let ?h = "hospitals c ! (i mod length (hospitals c))"
  from False have mem: "?h \<in> set (hospitals c)" by simp
  from assms mem have b: "0 \<le> fst ?h \<and> fst ?h < grid_size c \<and> 0 \<le> snd ?h \<and> snd ?h < grid_size c"
    unfolding generated_city_def by blast
  then have "fst ?h \<le> grid_size c - 1" and "snd ?h \<le> grid_size c - 1" by simp_all
  then have "real_of_int (fst ?h) \<le> of_int (grid_size c) - 1"
    and "real_of_int (snd ?h) \<le> of_int (grid_size c) - 1"
    by linarith+
  with grid_extent_bounds(2)[of c]
  have "real_of_int (fst ?h) \<le> grid_extent c" and "real_of_int (snd ?h) \<le> grid_extent c"
    by linarith+
  with b False show ?thesis by (simp add: get_random_hospital_def)
qed

lemma get_min_safe_altitude_bounds:
  assumes "generated_city c"
  shows "1 \<le> get_min_safe_altitude c x y \<and> get_min_safe_altitude c x y \<le> 9"
  using assms
  by (simp add: get_min_safe_altitude_def get_building_height_def generated_city_def
      MAX_BUILDING_HEIGHT_def)

lemma reset_level:
  assumes "generated_city (obstacles env)" and "reset env i j = (o', env')"
  shows "obstacles env' = obstacles env \<and>
         (\<exists>d' obs. env_drone env' = Some d' \<and>
                   level_position (grid_extent (obstacles env)) (position d') \<and>
                   o' = Some obs \<and> obs_position obs = Some (position d'))"
proof -
  obtain sx sy where h: "get_random_hospital (obstacles env) i = (sx, sy)"
    by (cases "get_random_hospital (obstacles env) i")
  obtain tx ty where l: "get_random_lab (obstacles env) j = (tx, ty)"
    by (cases "get_random_lab (obstacles env) j")
  let ?alt = "get_min_safe_altitude (obstacles env) (of_int sx) (of_int sy)"
  let ?start = "(of_int sx :: real, of_int sy :: real, of_int ?alt :: real)"
  let ?d = "snd (pickup_cargo (Drone ?start) ''blood_sample'' (of_int sx, of_int sy))"
  have pos: "position ?d = ?start"
    by (simp add: pickup_cargo_def Drone_def)
  have hg: "0 \<le> sx \<and> real_of_int sx \<le> grid_extent (obstacles env) \<and>
            0 \<le> sy \<and> real_of_int sy \<le> grid_extent (obstacles env)"
    using get_random_hospital_on_grid[OF assms(1), of i] h by simp
  have ab: "1 \<le> ?alt \<and> ?alt \<le> 9"
    by (rule get_min_safe_altitude_bounds[OF assms(1)])
  have lv: "level_position (grid_extent (obstacles env)) ?start"
    using hg ab by (simp add: level_position_def MAX_ALTITUDE_def)
  have e: "env_drone env' = Some ?d" and ob: "obstacles env' = obstacles env"
    and tg: "target_position env' \<noteq> None" and g: "o' = get_state_internal env'"
    using assms(2) h l by (auto simp add: reset_def Let_def)
  from tg obtain t where "target_position env' = Some t" by blast
  with e obtain obs where gs: "get_state_internal env' = Some obs"
    using get_state_internal_Some by blast
  from get_state_internal_position[OF gs] e have "obs_position obs = Some (position ?d)"
    by auto
  then show ?thesis
    using e ob g gs lv pos by simp
qed

lemma call_level:
  assumes "generated_city c" and "level_state c s" and "call (snd s) x = Some s'"
  shows "level_state c s'"
proof (cases x)
  case (CallReset i j)
  with assms(3) have r: "reset (snd s) i j = (fst s', snd s')" by simp
  have g: "generated_city (obstacles (snd s))"
    using assms(1,2) by (simp add: level_state_def)
  from reset_level[OF g r] assms(2) show ?thesis
    by (auto simp add: level_state_def)
next
  case (CallStep act rnd)
  with assms(3) obtain obs reward dn info env' where
    st: "step (snd s) act rnd = Some (obs, reward, dn, info, env')" and s': "s' = (Some obs, env')"
    by (auto split: option.splits)
  from st obtain d where d: "env_drone (snd s) = Some d"
    by (cases "env_drone (snd s)") (simp_all add: step_def)
  with assms(2) have "level_position (grid_extent c) (position d)"
    by (simp add: level_state_def)
  from step_level[OF st d this grid_extent_bounds(1)] assms(2) s' show ?thesis
    by (auto simp add: level_state_def)
qed

lemma run_calls_level:
  assumes "generated_city c" and "level_state c s" and "run_calls s cs = Some s'"
  shows "level_state c s'"
  using assms(2,3)
proof (induction cs arbitrary: s)
  case Nil
  then show ?case by simp
next
  case (Cons x cs)
  then obtain s1 where c1: "call (snd s) x = Some s1" and r: "run_calls s1 cs = Some s'"
    by (auto split: option.splits)
  from call_level[OF assms(1) Cons.prems(1) c1] have "level_state c s1" .
  from Cons.IH[OF this r] show ?case .
qed

text \<open>
  Claim C8, as amended. On a generated map (heights between 0 and the maximal building
  height, hospitals on the map's own grid), of whatever size, every observation
  returned by \<open>reset\<close> or \<open>step\<close> in any history of calls reports an altitude that
  is a whole level with \<open>0 \<le> altitude < MAX_ALTITUDE\<close>. Its horizontal coordinates
  are real numbers, not necessarily whole cells, since the fractional wind vector is
  added to them before clamping; they lie between 0 and the larger of
  \<open>GRID_SIZE - 1\<close> and \<open>grid_size - 1\<close>, hence within \<open>0 \<le> x, y \<le> GRID_SIZE - 1\<close>
  whenever the map was built with a grid size of at most \<open>GRID_SIZE\<close> (the default).
\<close>

theorem observed_altitude_is_level:
  assumes "generated_city c"
    and "run_calls (None, CityEnvironment c w) calls = Some (Some obs, env')"
  shows "\<exists>x y z. obs_position obs = Some (x, y, z) \<and>
           z \<in> \<int> \<and> 0 \<le> z \<and> z < MAX_ALTITUDE \<and>
           0 \<le> x \<and> x \<le> max (GRID_SIZE - 1) (of_int (grid_size c) - 1) \<and>
           0 \<le> y \<and> y \<le> max (GRID_SIZE - 1) (of_int (grid_size c) - 1) \<and>
           (of_int (grid_size c) \<le> GRID_SIZE \<longrightarrow> x \<le> GRID_SIZE - 1 \<and> y \<le> GRID_SIZE - 1)"
proof -
  have "level_state c (None, CityEnvironment c w)"
    by (simp add: level_state_def CityEnvironment_def)
  from run_calls_level[OF assms(1) this assms(2)] have ls: "level_state c (Some obs, env')" .
  then obtain d where d: "env_drone env' = Some d" and p: "obs_position obs = Some (position d)"
    unfolding level_state_def by auto
  from ls d have "level_position (grid_extent c) (position d)"
    unfolding level_state_def by simp
  with p have "level_position (grid_extent c) (position d) \<and> obs_position obs = Some (position d)"
    by simp
  then show ?thesis
    by (cases "position d") (auto simp add: level_position_def grid_extent_def)
qed

lemma nine_eighths: "(9 / 8 :: real) \<notin> \<int>"
proof
  assume "(9 / 8 :: real) \<in> \<int>"
  then obtain k :: int where "(9 / 8 :: real) = of_int k" by (auto elim: Ints_cases)
  then have "(of_int (8 * k) :: real) = of_int 9" by simp
  then have "8 * k = 9" by (simp only: of_int_eq_iff)
  then show False by presburger
qed

lemma breezy_weather: "WeatherSystem CLEAR (1 / 2) 0 =
   \<lparr> wx_condition = CLEAR, wind_speed = 10, wind_direction = 0, visibility = 100 \<rparr>"
  by (simp add: WeatherSystem_def update_weather_effects_def uniform_def)

lemma breezy_update:
  "update_weather (WeatherSystem CLEAR (1 / 2) 0) calm_draws = WeatherSystem CLEAR (1 / 2) 0"
  by (simp add: breezy_weather update_weather_def calm_draws_def uniform_def fmod_def Let_def)

lemma breezy_wind: "get_wind_effect (WeatherSystem CLEAR (1 / 2) 0) = (1 / 8, 0)"
  by (simp add: breezy_weather get_wind_effect_def MAX_WIND_SPEED_def Let_def)

lemma breezy_reset:
  "\<exists>o1 env1. reset breezy_city 0 0 = (o1, env1) \<and>
     env_drone env1 = Some (snd (pickup_cargo (Drone (1, 1, 1)) ''blood_sample'' (1, 1))) \<and>
     target_position env1 = Some (40, 40, 1) \<and>
     weather env1 = WeatherSystem CLEAR (1 / 2) 0"
  by (simp add: breezy_city_def reset_def CityEnvironment_def flat_city_def
      get_random_hospital_def get_random_lab_def get_min_safe_altitude_def
      get_building_height_def Let_def)

lemma breezy_history:
  "\<exists>obs env'. run_calls (None, breezy_city) breezy_calls = Some (Some obs, env') \<and>
      obs_position obs = Some (9 / 8, 1, 1)"
proof -
  obtain o1 env1 where r: "reset breezy_city 0 0 = (o1, env1)"
    and d: "env_drone env1 = Some (snd (pickup_cargo (Drone (1, 1, 1)) ''blood_sample'' (1, 1)))"
    and t: "target_position env1 = Some (40, 40, 1)"
    and w: "weather env1 = WeatherSystem CLEAR (1 / 2) 0"
    using breezy_reset by blast
  let ?d1 = "update_payload_condition (snd (pickup_cargo (Drone (1, 1, 1)) ''blood_sample'' (1, 1))) 1"
  have d1: "?d1 = (Drone (1, 1, 1))\<lparr> cargo := Some ''blood_sample'',
        has_package := True, payload_locked := True, pickup_location := Some (1, 1),
        time_since_pickup := 1, payload_condition := ''fresh'' \<rparr>"
    by (simp add: update_payload_condition_def pickup_cargo_def Drone_def Let_def
        PAYLOAD_MAX_TIME_def PAYLOAD_SPOILAGE_WARNING_def)
  have sp: "\<not> is_payload_spoiled ?d1"
    by (simp add: d1 is_payload_spoiled_def)
  have ws: "wind_speed (update_weather (weather env1) calm_draws) < EXTREME_WIND_SPEED"
    unfolding w breezy_update by (simp add: breezy_weather EXTREME_WIND_SPEED_def)
  have mv: "position (snd (move ?d1 ''HOVER'' (1 / 8, 0))) = (9 / 8, 1, 1)"
    unfolding d1
    by (simp add: move_def apply_motion_def Drone_def Let_def GRID_SIZE_def MAX_ALTITUDE_def)
  from step_flight[OF d t sp ws, of "''HOVER''"]
  obtain obs r' dn info env' where
    st: "step env1 ''HOVER'' calm_draws = Some (obs, r', dn, info, env')"
    and p: "obs_position obs = Some (9 / 8, 1, 1)"
    unfolding w breezy_update breezy_wind mv by (auto simp add: Let_def)
  show ?thesis
    using r st p by (simp add: breezy_calls_def)
qed

text \<open>
  Claim C8 as stated fails: after a reset and one \<open>HOVER\<close> under a 10 km/h wind along
  the \<open>x\<close> axis, the observation reports \<open>x = 9/8\<close>, which is not a whole grid cell.
\<close>

theorem wind_drift_leaves_grid_cells_counterexample:
  "last_position (run_calls (None, breezy_city) breezy_calls) = Some (9 / 8, 1, 1) \<and>
   \<not> integer_cells (9 / 8, 1, 1)"
  using breezy_history nine_eighths
  by (auto simp add: last_position_def integer_cells_def)

text \<open>The amended statement applied to the same history.\<close>

theorem observed_altitude_is_level_witness:
  "generated_city flat_city \<and> real_of_int (grid_size flat_city) \<le> GRID_SIZE \<and>
   (\<exists>obs env'. run_calls (None, CityEnvironment flat_city (WeatherSystem CLEAR (1 / 2) 0))
                    breezy_calls = Some (Some obs, env') \<and>
      (\<exists>x y z. obs_position obs = Some (x, y, z) \<and>
           z \<in> \<int> \<and> 0 \<le> z \<and> z < MAX_ALTITUDE \<and>
           0 \<le> x \<and> x \<le> GRID_SIZE - 1 \<and> 0 \<le> y \<and> y \<le> GRID_SIZE - 1))"
proof -
  have g: "generated_city flat_city"
    by (simp add: generated_city_def flat_city_def MAX_BUILDING_HEIGHT_def)
  have s: "real_of_int (grid_size flat_city) \<le> GRID_SIZE"
    by (simp add: flat_city_def GRID_SIZE_def)
  from breezy_history obtain obs env' where
    h: "run_calls (None, CityEnvironment flat_city (WeatherSystem CLEAR (1 / 2) 0)) breezy_calls
          = Some (Some obs, env')"
    unfolding breezy_city_def by blast
  from observed_altitude_is_level[OF g h] s g h show ?thesis by blast
qed


section \<open>The rule engine\<close>

lemma rule_priorities:
  "priority critical_battery_rule = 100" "priority return_to_base_rule = 90"
  "priority bad_weather_rule = 95" "priority no_fly_zone_rule = 85"
  "priority safe_altitude_rule = 80" "priority avoid_obstacles_rule = 88"
  "priority direct_path_rule = 30" "priority conserve_energy_rule = 40"
  "priority optimal_altitude_rule = 25" "priority pickup_cargo_rule = 60"
  "priority deliver_cargo_rule = 65" "priority go_to_pickup_rule = 50"
  "priority go_to_delivery_rule = 55"
  by (simp_all add: critical_battery_rule_def return_to_base_rule_def bad_weather_rule_def
      no_fly_zone_rule_def safe_altitude_rule_def avoid_obstacles_rule_def direct_path_rule_def
      conserve_energy_rule_def optimal_altitude_rule_def pickup_cargo_rule_def
      deliver_cargo_rule_def go_to_pickup_rule_def go_to_delivery_rule_def)

lemma rule_types:
  "rule_type critical_battery_rule = SAFETY" "rule_type return_to_base_rule = SAFETY"
  "rule_type bad_weather_rule = SAFETY" "rule_type no_fly_zone_rule = SAFETY"
  "rule_type safe_altitude_rule = SAFETY" "rule_type avoid_obstacles_rule = SAFETY"
  "rule_type direct_path_rule = EFFICIENCY" "rule_type conserve_energy_rule = EFFICIENCY"
  "rule_type optimal_altitude_rule = EFFICIENCY" "rule_type pickup_cargo_rule = MISSION"
  "rule_type deliver_cargo_rule = MISSION" "rule_type go_to_pickup_rule = MISSION"
  "rule_type go_to_delivery_rule = MISSION"
  by (simp_all add: critical_battery_rule_def return_to_base_rule_def bad_weather_rule_def
      no_fly_zone_rule_def safe_altitude_rule_def avoid_obstacles_rule_def direct_path_rule_def
      conserve_energy_rule_def optimal_altitude_rule_def pickup_cargo_rule_def
      deliver_cargo_rule_def go_to_pickup_rule_def go_to_delivery_rule_def)

lemma LogicEngine_rules:
  "rules LogicEngine =
     [critical_battery_rule, bad_weather_rule, return_to_base_rule, avoid_obstacles_rule,
      no_fly_zone_rule, safe_altitude_rule, deliver_cargo_rule, pickup_cargo_rule,
      go_to_delivery_rule, go_to_pickup_rule, conserve_energy_rule, direct_path_rule,
      optimal_altitude_rule]"
  by (simp add: LogicEngine_def add_rule_def rule_priorities)

lemma safety_rules:
  "filter (\<lambda>r. rule_type r = SAFETY) (rules LogicEngine) =
     [critical_battery_rule, bad_weather_rule, return_to_base_rule, avoid_obstacles_rule,
      no_fly_zone_rule, safe_altitude_rule]"
  by (simp add: LogicEngine_rules rule_types)

lemma exempt_actions:
  "\<not> action_violates_rule ''HOVER'' r s"
  "\<not> action_violates_rule ''CHARGE'' r s"
  "\<not> action_violates_rule ''wait'' r s"
  by (simp_all add: action_violates_rule_def)

lemma violated_rules_loop_eq:
  assumes "\<forall>r \<in> set rs. condition r s \<noteq> None"
  shows "violated_rules_loop rs s act acc =
           Some (acc @ filter (\<lambda>r. condition r s = Some True \<and> action_violates_rule act r s) rs)"
  using assms
proof (induction rs arbitrary: acc)
  case Nil
  then show ?case by simp
next
  case (Cons r rs)
  then obtain t where t: "condition r s = Some t" by auto
  from Cons.prems have "\<forall>r \<in> set rs. condition r s \<noteq> None" by simp
  from Cons.IH[OF this] t show ?case by simp
qed

lemma safety_conditions_defined:
  assumes "has_safety_keys s"
  shows "\<forall>r \<in> set (filter (\<lambda>r. rule_type r = SAFETY) (rules LogicEngine)). condition r s \<noteq> None"
  using assms unfolding safety_rules
  by (auto simp add: has_safety_keys_def critical_battery_rule_def bad_weather_rule_def
      return_to_base_rule_def avoid_obstacles_rule_def no_fly_zone_rule_def
      safe_altitude_rule_def)

lemma is_action_safe_eq:
  assumes "has_safety_keys s"
  shows "is_action_safe LogicEngine s act =
     Some (filter (\<lambda>r. condition r s = Some True \<and> action_violates_rule act r s)
             (filter (\<lambda>r. rule_type r = SAFETY) (rules LogicEngine)) = [],
           filter (\<lambda>r. condition r s = Some True \<and> action_violates_rule act r s)
             (filter (\<lambda>r. rule_type r = SAFETY) (rules LogicEngine)))"
  using violated_rules_loop_eq[OF safety_conditions_defined[OF assms], of act "[]"]
  by (simp add: is_action_safe_def Let_def)

lemma safe_actions_loop_eq:
  assumes "\<forall>act \<in> set acts. \<exists>b v. is_action_safe e s act = Some (b, v)"
  shows "safe_actions_loop e s acts acc =
           Some (acc @ filter (\<lambda>act. \<exists>v. is_action_safe e s act = Some (True, v)) acts)"
  using assms
proof (induction acts arbitrary: acc)
  case Nil
  then show ?case by simp
next
  case (Cons a acts)
  then obtain b v where a: "is_action_safe e s a = Some (b, v)" by auto
  from Cons.prems have "\<forall>act \<in> set acts. \<exists>b v. is_action_safe e s act = Some (b, v)" by simp
  from Cons.IH[OF this] a show ?case by simp
qed

lemma get_valid_actions_eq:
  assumes "has_safety_keys s"
  shows "get_valid_actions LogicEngine s acts =
     Some (let valid = filter (\<lambda>act. \<exists>v. is_action_safe LogicEngine s act = Some (True, v)) acts
           in if valid = [] \<and> ''wait'' \<in> set acts then valid @ [''wait''] else valid)"
proof -
  have "\<forall>act \<in> set acts. \<exists>b v. is_action_safe LogicEngine s act = Some (b, v)"
    using is_action_safe_eq[OF assms] by simp
  from safe_actions_loop_eq[OF this, of "[]"] show ?thesis
    by (simp add: get_valid_actions_def Let_def)
qed

lemma exempt_safe:
  assumes "has_safety_keys s" and "act \<in> {''HOVER'', ''CHARGE'', ''wait''}"
  shows "is_action_safe LogicEngine s act = Some (True, [])"
proof -
  have "\<not> action_violates_rule act r s" for r
    using assms(2) exempt_actions by auto
  then show ?thesis
    by (simp add: is_action_safe_eq[OF assms(1)])
qed

text \<open>
  Claim C4. For every observation that carries the keys the safety rules read (every
  observation the environment builds does), \<open>get_valid_actions\<close> on the canonical
  action set returns a non-empty list, which contains \<open>HOVER\<close> and \<open>CHARGE\<close>;
  \<open>HOVER\<close>, \<open>CHARGE\<close> and \<open>wait\<close> violate no rule whatever; and for any action list
  that offers \<open>wait\<close> the result is non-empty as well.
\<close>

theorem valid_actions_never_empty:
  assumes "has_safety_keys s"
  shows "(\<exists>valid. get_valid_actions LogicEngine s ACTIONS = Some valid \<and> valid \<noteq> [] \<and>
            ''HOVER'' \<in> set valid \<and> ''CHARGE'' \<in> set valid) \<and>
         (\<forall>r. \<not> action_violates_rule ''HOVER'' r s \<and> \<not> action_violates_rule ''CHARGE'' r s \<and>
              \<not> action_violates_rule ''wait'' r s) \<and>
         (\<forall>acts. ''wait'' \<in> set acts \<longrightarrow>
            (\<exists>valid. get_valid_actions LogicEngine s acts = Some valid \<and> valid \<noteq> []))"
proof -
  have h: "is_action_safe LogicEngine s ''HOVER'' = Some (True, [])"
    and c: "is_action_safe LogicEngine s ''CHARGE'' = Some (True, [])"
    using exempt_safe[OF assms] by simp_all
  let ?valid = "filter (\<lambda>act. \<exists>v. is_action_safe LogicEngine s act = Some (True, v)) ACTIONS"
  have mem: "''HOVER'' \<in> set ?valid" "''CHARGE'' \<in> set ?valid"
    using h c by (simp_all add: ACTIONS_def)
  have ne: "?valid \<noteq> []"
    by (metis mem(1) empty_iff list.set(1))
  have first: "\<exists>valid. get_valid_actions LogicEngine s ACTIONS = Some valid \<and> valid \<noteq> [] \<and>
            ''HOVER'' \<in> set valid \<and> ''CHARGE'' \<in> set valid"
    using mem ne by (simp add: get_valid_actions_eq[OF assms] Let_def)
  have third: "\<exists>valid. get_valid_actions LogicEngine s acts = Some valid \<and> valid \<noteq> []"
    if "''wait'' \<in> set acts" for acts
    using that by (simp add: get_valid_actions_eq[OF assms] Let_def)
  show ?thesis
    using first third exempt_actions by blast
qed


lemma storm_obs_keys: "has_safety_keys storm_obs"
  by (simp add: has_safety_keys_def storm_obs_def low_battery_obs_def)

theorem valid_actions_never_empty_witness:
  "has_safety_keys storm_obs \<and>
   (\<exists>valid. get_valid_actions LogicEngine storm_obs ACTIONS = Some valid \<and> valid \<noteq> [] \<and>
      ''HOVER'' \<in> set valid \<and> ''CHARGE'' \<in> set valid) \<and>
   ''wait'' \<in> set [''MOVE_UP'', ''wait''] \<and>
   (\<exists>valid. get_valid_actions LogicEngine storm_obs [''MOVE_UP'', ''wait''] = Some valid \<and>
      valid \<noteq> [])"
proof -
  have w: "''wait'' \<in> set [''MOVE_UP'', ''wait'']" by simp
  from valid_actions_never_empty[OF storm_obs_keys] w storm_obs_keys
  show ?thesis by blast
qed

lemma observations_have_safety_keys:
  assumes "get_state_internal env = Some obs"
  shows "has_safety_keys obs"
  using assms
  by (auto simp add: get_state_internal_def has_safety_keys_def split: option.splits prod.splits)

lemma low_battery_obs_keys: "has_safety_keys low_battery_obs"
  by (simp add: has_safety_keys_def low_battery_obs_def)

lemma rule_names:
  "name critical_battery_rule = ''critical_battery''" "name return_to_base_rule = ''return_to_base''"
  "name bad_weather_rule = ''bad_weather''" "name no_fly_zone_rule = ''no_fly_zone''"
  "name safe_altitude_rule = ''safe_altitude''" "name avoid_obstacles_rule = ''avoid_obstacles''"
  by (simp_all add: critical_battery_rule_def return_to_base_rule_def bad_weather_rule_def
      no_fly_zone_rule_def safe_altitude_rule_def avoid_obstacles_rule_def)

lemma critical_battery_triggered:
  assumes "obs_battery s = Some 3"
  shows "condition critical_battery_rule s = Some True"
  using assms by (simp add: critical_battery_rule_def MIN_BATTERY_EMERGENCY_def)

lemma critical_battery_first:
  assumes "obs_battery s = Some 3"
  shows "\<exists>rest. get_triggered_rules LogicEngine s = critical_battery_rule # rest"
  using critical_battery_triggered[OF assms]
  by (simp add: get_triggered_rules_def evaluate_rules_def LogicEngine_rules)

lemma critical_battery_blocks:
  assumes "has_safety_keys s" and "obs_battery s = Some 3"
    and "act \<in> {''MOVE_UP'', ''MOVE_NORTH'', ''MOVE_SOUTH'', ''MOVE_EAST'', ''MOVE_WEST''}"
  shows "\<exists>rest. is_action_safe LogicEngine s act = Some (False, critical_battery_rule # rest)"
proof -
  have "action_violates_rule act critical_battery_rule s"
    using assms(3) by (auto simp add: action_violates_rule_def rule_names static_violations_def)
  with critical_battery_triggered[OF assms(2)] show ?thesis
    by (simp add: is_action_safe_eq[OF assms(1)] safety_rules)
qed


text \<open>
  Claim C5, as amended. For every observation with battery 3 percent and
  \<open>safe_to_fly\<close> true, the critical-battery rule, of priority 100, heads the list of
  triggered rules; \<open>is_action_safe\<close> reports \<open>MOVE_UP\<close> and the four lateral moves as
  unsafe, with that rule first among the violated ones; \<open>HOVER\<close> and \<open>CHARGE\<close> are
  reported safe, being exempt; and \<open>get_valid_actions\<close> on the canonical action set
  returns \<open>HOVER\<close> and \<open>CHARGE\<close> and, at most, \<open>MOVE_DOWN\<close> besides.
\<close>

theorem critical_battery_scenario:
  assumes "has_safety_keys s" and "obs_battery s = Some 3" and "obs_safe_to_fly s = Some True"
  shows "(\<exists>rest. get_triggered_rules LogicEngine s = critical_battery_rule # rest) \<and>
         priority critical_battery_rule = 100 \<and>
         (\<forall>act \<in> {''MOVE_UP'', ''MOVE_NORTH'', ''MOVE_SOUTH'', ''MOVE_EAST'', ''MOVE_WEST''}.
            \<exists>rest. is_action_safe LogicEngine s act = Some (False, critical_battery_rule # rest)) \<and>
         is_action_safe LogicEngine s ''HOVER'' = Some (True, []) \<and>
         is_action_safe LogicEngine s ''CHARGE'' = Some (True, []) \<and>
         (\<exists>valid. get_valid_actions LogicEngine s ACTIONS = Some valid \<and>
            set valid \<subseteq> {''MOVE_DOWN'', ''HOVER'', ''CHARGE''} \<and>
            ''HOVER'' \<in> set valid \<and> ''CHARGE'' \<in> set valid)"
proof -
  let ?ok = "\<lambda>act. \<exists>v. is_action_safe LogicEngine s act = Some (True, v)"
  note blocks = critical_battery_blocks[OF assms(1,2)]
  have h: "is_action_safe LogicEngine s ''HOVER'' = Some (True, [])"
    and c: "is_action_safe LogicEngine s ''CHARGE'' = Some (True, [])"
    using exempt_safe[OF assms(1)] by simp_all
  have u: "\<not> ?ok ''MOVE_UP''" using blocks[of "''MOVE_UP''"] by auto
  have n: "\<not> ?ok ''MOVE_NORTH''" using blocks[of "''MOVE_NORTH''"] by auto
  have so: "\<not> ?ok ''MOVE_SOUTH''" using blocks[of "''MOVE_SOUTH''"] by auto
  have e: "\<not> ?ok ''MOVE_EAST''" using blocks[of "''MOVE_EAST''"] by auto
  have w: "\<not> ?ok ''MOVE_WEST''" using blocks[of "''MOVE_WEST''"] by auto
  have ho: "?ok ''HOVER''" using h by simp
  have co: "?ok ''CHARGE''" using c by simp
  have fl: "filter ?ok ACTIONS =
              (if ?ok ''MOVE_DOWN'' then [''MOVE_DOWN'', ''HOVER'', ''CHARGE'']
               else [''HOVER'', ''CHARGE''])"
    unfolding ACTIONS_def filter.simps using u n so e w ho co by simp
  have v: "get_valid_actions LogicEngine s ACTIONS = Some (filter ?ok ACTIONS)"
    unfolding get_valid_actions_eq[OF assms(1)] Let_def fl by simp
  have sub: "set (filter ?ok ACTIONS) \<subseteq> {''MOVE_DOWN'', ''HOVER'', ''CHARGE''}"
    and mem: "''HOVER'' \<in> set (filter ?ok ACTIONS)" "''CHARGE'' \<in> set (filter ?ok ACTIONS)"
    unfolding fl by simp_all
  have five: "\<forall>act \<in> {''MOVE_UP'', ''MOVE_NORTH'', ''MOVE_SOUTH'', ''MOVE_EAST'', ''MOVE_WEST''}.
            \<exists>rest. is_action_safe LogicEngine s act = Some (False, critical_battery_rule # rest)"
    using blocks by blast
  have p: "priority critical_battery_rule = 100" by (rule rule_priorities(1))
  from v sub mem have last: "\<exists>valid. get_valid_actions LogicEngine s ACTIONS = Some valid \<and>
            set valid \<subseteq> {''MOVE_DOWN'', ''HOVER'', ''CHARGE''} \<and>
            ''HOVER'' \<in> set valid \<and> ''CHARGE'' \<in> set valid"
    by blast
  from critical_battery_first[OF assms(2)] p five h c last show ?thesis
    by (intro conjI)
qed

lemma low_battery_conditions:
  "condition critical_battery_rule low_battery_obs = Some True"
  "condition bad_weather_rule low_battery_obs = Some False"
  "condition return_to_base_rule low_battery_obs = Some False"
  "condition avoid_obstacles_rule low_battery_obs = Some False"
  "condition no_fly_zone_rule low_battery_obs = Some False"
  "condition safe_altitude_rule low_battery_obs = Some False"
  by (simp_all add: low_battery_obs_def critical_battery_rule_def bad_weather_rule_def
      return_to_base_rule_def avoid_obstacles_rule_def no_fly_zone_rule_def
      safe_altitude_rule_def get_default_def MIN_BATTERY_EMERGENCY_def MIN_BATTERY_RETURN_def
      ALTITUDE_STEP_def SAFETY_MAX_ALTITUDE_M_def SAFETY_MIN_ALTITUDE_M_def)

lemma descent_allowed: "\<not> action_violates_rule ''MOVE_DOWN'' critical_battery_rule s"
  by (simp add: action_violates_rule_def static_violations_def rule_names)

lemma low_battery_move_down:
  "is_action_safe LogicEngine low_battery_obs ''MOVE_DOWN'' = Some (True, [])"
  unfolding is_action_safe_eq[OF low_battery_obs_keys] safety_rules
  by (simp add: low_battery_conditions descent_allowed)

text \<open>
  Claim C5 as stated fails: at battery 3 percent \<open>HOVER\<close> is reported safe, and the
  valid actions include the descent \<open>MOVE_DOWN\<close>.
\<close>

theorem hover_and_descent_stay_valid_counterexample:
  "obs_battery low_battery_obs = Some 3 \<and> obs_safe_to_fly low_battery_obs = Some True \<and>
   is_action_safe LogicEngine low_battery_obs ''HOVER'' = Some (True, []) \<and>
   get_valid_actions LogicEngine low_battery_obs ACTIONS = Some [''MOVE_DOWN'', ''HOVER'', ''CHARGE'']"
proof -
  let ?ok = "\<lambda>act. \<exists>v. is_action_safe LogicEngine low_battery_obs act = Some (True, v)"
  have b: "obs_battery low_battery_obs = Some 3" and f: "obs_safe_to_fly low_battery_obs = Some True"
    by (simp_all add: low_battery_obs_def)
  note blocks = critical_battery_blocks[OF low_battery_obs_keys b]
  have h: "is_action_safe LogicEngine low_battery_obs ''HOVER'' = Some (True, [])"
    and c: "is_action_safe LogicEngine low_battery_obs ''CHARGE'' = Some (True, [])"
    using exempt_safe[OF low_battery_obs_keys] by simp_all
  have u: "\<not> ?ok ''MOVE_UP''" using blocks[of "''MOVE_UP''"] by auto
  have n: "\<not> ?ok ''MOVE_NORTH''" using blocks[of "''MOVE_NORTH''"] by auto
  have s: "\<not> ?ok ''MOVE_SOUTH''" using blocks[of "''MOVE_SOUTH''"] by auto
  have e: "\<not> ?ok ''MOVE_EAST''" using blocks[of "''MOVE_EAST''"] by auto
  have w: "\<not> ?ok ''MOVE_WEST''" using blocks[of "''MOVE_WEST''"] by auto
  have d: "?ok ''MOVE_DOWN''" using low_battery_move_down by simp
  have ho: "?ok ''HOVER''" using h by simp
  have co: "?ok ''CHARGE''" using c by simp
  have "filter ?ok ACTIONS = [''MOVE_DOWN'', ''HOVER'', ''CHARGE'']"
    unfolding ACTIONS_def filter.simps using u n s e w d ho co by simp
  then have "get_valid_actions LogicEngine low_battery_obs ACTIONS = Some [''MOVE_DOWN'', ''HOVER'', ''CHARGE'']"
    by (simp add: get_valid_actions_eq[OF low_battery_obs_keys] Let_def)
  with b f h show ?thesis by simp
qed

text \<open>The amended statement applied to that observation.\<close>

theorem critical_battery_scenario_witness:
  "has_safety_keys low_battery_obs \<and> obs_battery low_battery_obs = Some 3 \<and>
   obs_safe_to_fly low_battery_obs = Some True \<and>
   hd (get_triggered_rules LogicEngine low_battery_obs) = critical_battery_rule \<and>
   map_option fst (is_action_safe LogicEngine low_battery_obs ''MOVE_NORTH'') = Some False \<and>
   map_option fst (is_action_safe LogicEngine low_battery_obs ''HOVER'') = Some True"
proof -
  have b: "obs_battery low_battery_obs = Some 3" and f: "obs_safe_to_fly low_battery_obs = Some True"
    by (simp_all add: low_battery_obs_def)
  from critical_battery_scenario[OF low_battery_obs_keys b f] low_battery_obs_keys b f
  show ?thesis by auto
qed

lemma proximity_alarm_fields:
  "priority proximity_alarm_rule = 70" "rule_type proximity_alarm_rule = SAFETY"
  by (simp_all add: proximity_alarm_rule_def)

lemma alarmed_engine_rules:
  "rules alarmed_engine =
     [critical_battery_rule, bad_weather_rule, return_to_base_rule, avoid_obstacles_rule,
      no_fly_zone_rule, safe_altitude_rule, proximity_alarm_rule, deliver_cargo_rule,
      pickup_cargo_rule, go_to_delivery_rule, go_to_pickup_rule, conserve_energy_rule,
      direct_path_rule, optimal_altitude_rule]"
  by (simp add: alarmed_engine_def add_rule_def LogicEngine_rules rule_priorities
      proximity_alarm_fields)

lemma low_battery_other_conditions:
  "condition proximity_alarm_rule low_battery_obs = None"
  "condition deliver_cargo_rule low_battery_obs = Some False"
  "condition pickup_cargo_rule low_battery_obs = Some False"
  "condition go_to_delivery_rule low_battery_obs = Some True"
  "condition go_to_pickup_rule low_battery_obs = Some False"
  "condition conserve_energy_rule low_battery_obs = Some True"
  "condition direct_path_rule low_battery_obs = Some False"
  "condition optimal_altitude_rule low_battery_obs = Some False"
  by (simp_all add: low_battery_obs_def proximity_alarm_rule_def deliver_cargo_rule_def
      pickup_cargo_rule_def go_to_delivery_rule_def go_to_pickup_rule_def
      conserve_energy_rule_def direct_path_rule_def optimal_altitude_rule_def get_default_def)

text \<open>
  With the raising rule registered, the safety check raises on every observation on
  which the six built-in safety conditions are defined and the rule's key is missing,
  whatever the action.
\<close>

lemma alarmed_engine_raises:
  assumes "has_safety_keys s" and "obs_obstacle_nearby s = None"
  shows "is_action_safe alarmed_engine s act = None"
proof -
  have sr: "filter (\<lambda>r. rule_type r = SAFETY) (rules alarmed_engine) =
          [critical_battery_rule, bad_weather_rule, return_to_base_rule, avoid_obstacles_rule,
           no_fly_zone_rule, safe_altitude_rule, proximity_alarm_rule]"
    by (simp add: alarmed_engine_rules rule_types proximity_alarm_fields)
  have none: "condition proximity_alarm_rule s = None"
    using assms(2) by (simp add: proximity_alarm_rule_def)
  obtain a b c d e f where
    "condition critical_battery_rule s = Some a" "condition bad_weather_rule s = Some b"
    "condition return_to_base_rule s = Some c" "condition avoid_obstacles_rule s = Some d"
    "condition no_fly_zone_rule s = Some e" "condition safe_altitude_rule s = Some f"
    using safety_conditions_defined[OF assms(1)] unfolding safety_rules by auto
  then show ?thesis
    unfolding is_action_safe_def Let_def sr by (simp add: none)
qed

text \<open>
  Claim C6 (a rule whose condition raises is caught and cannot halt any operation of
  the arbitration pass). Take the engine with a registered safety rule whose condition
  raises, and a complete observation (battery 3 percent, clear weather). Rule
  evaluation absorbs the exception: the triggered rules and the recommended action are
  those of the engine without the rule. But \<open>is_action_safe\<close> raises, for \<open>HOVER\<close>
  as for any action, and so do \<open>get_valid_actions\<close> and \<open>choose_action\<close>.
\<close>

theorem raising_rule_halts_safety_check:
  "has_safety_keys low_battery_obs \<and>
   condition proximity_alarm_rule low_battery_obs = None \<and>
   get_triggered_rules alarmed_engine low_battery_obs =
     [critical_battery_rule, go_to_delivery_rule, conserve_energy_rule] \<and>
   get_triggered_rules LogicEngine low_battery_obs =
     [critical_battery_rule, go_to_delivery_rule, conserve_energy_rule] \<and>
   get_recommended_action alarmed_engine low_battery_obs = (''HOVER'', Some critical_battery_rule) \<and>
   is_action_safe LogicEngine low_battery_obs ''HOVER'' = Some (True, []) \<and>
   is_action_safe alarmed_engine low_battery_obs ''HOVER'' = None \<and>
   get_valid_actions alarmed_engine low_battery_obs ACTIONS = None \<and>
   choose_action ((HybridController ACTIONS)\<lparr> logic_engine := alarmed_engine \<rparr>)
     low_battery_obs True = None"
proof -
  have t: "get_triggered_rules alarmed_engine low_battery_obs =
             [critical_battery_rule, go_to_delivery_rule, conserve_energy_rule]"
    unfolding get_triggered_rules_def evaluate_rules_def alarmed_engine_rules
    by (simp add: low_battery_conditions low_battery_other_conditions)
  have t0: "get_triggered_rules LogicEngine low_battery_obs =
             [critical_battery_rule, go_to_delivery_rule, conserve_energy_rule]"
    unfolding get_triggered_rules_def evaluate_rules_def LogicEngine_rules
    by (simp add: low_battery_conditions low_battery_other_conditions)
  have r: "get_recommended_action alarmed_engine low_battery_obs =
             (''HOVER'', Some critical_battery_rule)"
    unfolding get_recommended_action_def t by (simp add: critical_battery_rule_def)
  have k: "obs_obstacle_nearby low_battery_obs = None"
    by (simp add: low_battery_obs_def)
  have s: "is_action_safe alarmed_engine low_battery_obs act = None" for act
    by (rule alarmed_engine_raises[OF low_battery_obs_keys k])
  have v: "get_valid_actions alarmed_engine low_battery_obs ACTIONS = None"
    unfolding get_valid_actions_def ACTIONS_def by (simp add: s)
  have c: "choose_action ((HybridController ACTIONS)\<lparr> logic_engine := alarmed_engine \<rparr>)
             low_battery_obs True = None"
    unfolding choose_action_def Let_def
    by (simp add: HybridController_def v split: prod.splits)
  have h: "is_action_safe LogicEngine low_battery_obs ''HOVER'' = Some (True, [])"
    using exempt_safe[OF low_battery_obs_keys] by simp
  from low_battery_obs_keys low_battery_other_conditions(1) t t0 r h s v c
  show ?thesis by simp
qed


section \<open>The learning agent\<close>

lemma low_battery_key: "get_state_key low_battery_obs = Some (10, 0, 1, 1, 2, 0, 0)"
  by (simp add: get_state_key_def low_battery_obs_def Let_def)

text \<open>
  Claim C9, as amended. For every observation whose discretized state has no entry in
  the value table, \<open>get_q_value\<close> returns 0.0 for every action and does not raise; the
  lookup inserts, under that state, an entry that maps the queried action to 0.0, which
  is part of what \<open>save\<close> writes afterwards; the entries of all other states are
  unchanged.
\<close>

theorem lookup_inserts_default:
  assumes "get_state_key s = Some k" and "q_table ag k = None"
  shows "get_q_value ag s act = Some (0, ag\<lparr> q_table := (q_table ag)(k \<mapsto> [act \<mapsto> 0]) \<rparr>) \<and>
         save_data (ag\<lparr> q_table := (q_table ag)(k \<mapsto> [act \<mapsto> 0]) \<rparr>) =
           ((q_table ag)(k \<mapsto> [act \<mapsto> 0]), epsilon ag, episodes_trained ag, total_updates ag) \<and>
         (\<forall>k'. k' \<noteq> k \<longrightarrow> ((q_table ag)(k \<mapsto> [act \<mapsto> 0])) k' = q_table ag k')"
  using assms
  by (simp add: get_q_value_def lookup_q_def lookup_state_def save_data_def)

text \<open>
  Claim C9 as stated fails: on a fresh agent, a single \<open>get_q_value\<close> leaves the
  table, and hence the saved data, with an entry for the queried state that was not
  there before.
\<close>

theorem lookup_leaves_table_unchanged_counterexample:
  "get_q_value (QLearningAgent ACTIONS) low_battery_obs ''HOVER'' =
     Some (0, (QLearningAgent ACTIONS)\<lparr> q_table := [(10, 0, 1, 1, 2, 0, 0) \<mapsto> [''HOVER'' \<mapsto> 0]] \<rparr>) \<and>
   fst (save_data (QLearningAgent ACTIONS)) (10, 0, 1, 1, 2, 0, 0) = None \<and>
   fst (save_data ((QLearningAgent ACTIONS)\<lparr> q_table := [(10, 0, 1, 1, 2, 0, 0) \<mapsto> [''HOVER'' \<mapsto> 0]] \<rparr>))
       (10, 0, 1, 1, 2, 0, 0) = Some [''HOVER'' \<mapsto> 0]"
  by (simp add: get_q_value_def low_battery_key lookup_q_def lookup_state_def save_data_def
      QLearningAgent_def)

text \<open>The amended statement applied to the fresh agent.\<close>

theorem lookup_inserts_default_witness:
  "get_state_key low_battery_obs = Some (10, 0, 1, 1, 2, 0, 0) \<and>
   q_table (QLearningAgent ACTIONS) (10, 0, 1, 1, 2, 0, 0) = None \<and>
   map_option fst (get_q_value (QLearningAgent ACTIONS) low_battery_obs ''MOVE_EAST'') = Some 0 \<and>
   (1, 0, 1, 1, 2, 0, 0) \<noteq> (10 :: int, 0 :: int, 1 :: int, 1 :: int, 2 :: int, 0 :: int, 0 :: int) \<and>
   ((q_table (QLearningAgent ACTIONS))((10, 0, 1, 1, 2, 0, 0) \<mapsto> [''MOVE_EAST'' \<mapsto> 0]))
      (1, 0, 1, 1, 2, 0, 0) = q_table (QLearningAgent ACTIONS) (1, 0, 1, 1, 2, 0, 0)"
proof -
  have e: "q_table (QLearningAgent ACTIONS) (10, 0, 1, 1, 2, 0, 0) = None"
    by (simp add: QLearningAgent_def)
  have n: "(1, 0, 1, 1, 2, 0, 0) \<noteq> (10 :: int, 0 :: int, 1 :: int, 1 :: int, 2 :: int, 0 :: int, 0 :: int)"
    by simp
  from lookup_inserts_default[OF low_battery_key e, of "''MOVE_EAST''"] low_battery_key e n
  show ?thesis by (simp del: fun_upd_apply)
qed


section \<open>The hybrid controller\<close>

lemma rule_actions:
  "action critical_battery_rule = ''HOVER''" "action bad_weather_rule = ''HOVER''"
  "action return_to_base_rule = ''return_to_base''"
  by (simp_all add: critical_battery_rule_def bad_weather_rule_def return_to_base_rule_def)

text \<open>The critical rules among the triggered ones: a selection from three, in priority order.\<close>

lemma critical_rules_triggered:
  "critical_rules (get_triggered_rules LogicEngine s) =
     filter (\<lambda>r. condition r s = Some True)
       [critical_battery_rule, bad_weather_rule, return_to_base_rule]"
proof -
  have t: "(case condition r s of None \<Rightarrow> False | Some t \<Rightarrow> t) \<longleftrightarrow> condition r s = Some True" for r
    by (cases "condition r s") auto
  have "get_triggered_rules LogicEngine s = filter (\<lambda>r. condition r s = Some True) (rules LogicEngine)"
    unfolding get_triggered_rules_def evaluate_rules_def
    by (induction "rules LogicEngine") (auto simp add: t filter_map comp_def)
  then show ?thesis
    unfolding critical_rules_def LogicEngine_rules
    by (simp add: rule_types rule_priorities)
qed


lemma observations_have_cardinal_neighbors:
  assumes "get_state_internal env = Some obs"
  shows "cardinal_neighbors obs"
  using assms
  by (auto simp add: get_state_internal_def cardinal_neighbors_def
      split: option.splits prod.splits if_splits)

lemma return_to_base_violates_nothing:
  assumes "cardinal_neighbors s"
    and "r \<in> set [critical_battery_rule, bad_weather_rule, return_to_base_rule,
                   avoid_obstacles_rule, no_fly_zone_rule, safe_altitude_rule]"
  shows "\<not> action_violates_rule ''return_to_base'' r s"
proof -
  have nf: "\<not> enters_no_fly ''return_to_base'' s"
    using assms(1)
    by (auto simp add: enters_no_fly_def cardinal_neighbors_def get_default_def
        split: option.splits)
  have hb: "\<not> hits_building ''return_to_base'' s"
    by (simp add: hits_building_def Let_def)
  show ?thesis
    using assms(2) nf hb
    by (auto simp add: action_violates_rule_def static_violations_def rule_names)
qed

lemma critical_action_safe:
  assumes "has_safety_keys s" and "cardinal_neighbors s"
    and "act \<in> {''HOVER'', ''return_to_base''}"
  shows "is_action_safe LogicEngine s act = Some (True, [])"
proof (cases "act = ''HOVER''")
  case True
  then show ?thesis using exempt_safe[OF assms(1), of act] by simp
next
  case False
  with assms(3) have a: "act = ''return_to_base''" by simp
  have "filter (\<lambda>r. condition r s = Some True \<and> action_violates_rule ''return_to_base'' r s)
          [critical_battery_rule, bad_weather_rule, return_to_base_rule,
           avoid_obstacles_rule, no_fly_zone_rule, safe_altitude_rule] = []"
    using return_to_base_violates_nothing[OF assms(2)]
    by (simp only: filter_empty_conv) blast
  then show ?thesis
    unfolding a is_action_safe_eq[OF assms(1)] safety_rules by simp
qed


lemma critical_rules_head:
  assumes "critical_rules (get_triggered_rules LogicEngine s) \<noteq> []"
  shows "\<exists>r rest. critical_rules (get_triggered_rules LogicEngine s) = r # rest \<and>
           action r \<in> {''HOVER'', ''return_to_base''} \<and>
           (\<forall>r' \<in> set (r # rest). priority r' \<le> priority r)"
  using assms unfolding critical_rules_triggered
  by (cases "condition critical_battery_rule s = Some True";
      cases "condition bad_weather_rule s = Some True";
      cases "condition return_to_base_rule s = Some True")
     (simp_all add: rule_actions rule_priorities)

lemma critical_rules_set:
  "set (critical_rules triggered) =
     {r \<in> set triggered. rule_type r = SAFETY \<and> priority r \<ge> 90}"
  by (auto simp add: critical_rules_def)

text \<open>
  Claim C2. For a controller with the constructed rule engine, and every observation
  that carries the keys the safety rules read and whose neighbour table has entries for
  the lateral moves only (as every observation built by the environment): whenever some
  triggered safety rule has priority at least 90, \<open>choose_action\<close>, in training or
  not and whatever the learned values, returns the action of a triggered safety rule
  whose priority is the highest among those; the decision is of type
  \<open>safety_critical\<close>, the post-hoc veto does not replace it (no violated rules are
  recorded), and the learning agent is not consulted (it is unchanged).
\<close>

theorem critical_override_wins:
  assumes "has_safety_keys s" and "cardinal_neighbors s" and "logic_engine c = LogicEngine"
    and "\<exists>r \<in> set (get_triggered_rules LogicEngine s). rule_type r = SAFETY \<and> priority r \<ge> 90"
  shows "\<exists>r info c'.
           r \<in> set (get_triggered_rules LogicEngine s) \<and> rule_type r = SAFETY \<and>
           priority r \<ge> 90 \<and>
           (\<forall>r' \<in> set (get_triggered_rules LogicEngine s).
              rule_type r' = SAFETY \<and> priority r' \<ge> 90 \<longrightarrow> priority r' \<le> priority r) \<and>
           choose_action c s training = Some (action r, info, c') \<and>
           di_decision_type info = Some ''safety_critical'' \<and>
           di_safety_override info \<and> di_violated_rules info = None \<and>
           q_agent c' = q_agent c"
proof -
  let ?crit = "critical_rules (get_triggered_rules LogicEngine s)"
  from assms(4) have "set ?crit \<noteq> {}"
    unfolding critical_rules_set by blast
  then have "?crit \<noteq> []" by simp
  from critical_rules_head[OF this] obtain r rest where
    cr: "?crit = r # rest" and act: "action r \<in> {''HOVER'', ''return_to_base''}"
    and top: "\<forall>r' \<in> set (r # rest). priority r' \<le> priority r"
    by blast
  have rin: "r \<in> set ?crit" unfolding cr by simp
  then have r1: "r \<in> set (get_triggered_rules LogicEngine s)"
    and r2: "rule_type r = SAFETY" and r3: "priority r \<ge> 90"
    unfolding critical_rules_set by simp_all
  have r4: "\<forall>r' \<in> set (get_triggered_rules LogicEngine s).
              rule_type r' = SAFETY \<and> priority r' \<ge> 90 \<longrightarrow> priority r' \<le> priority r"
  proof (intro ballI impI)
    fix r' assume "r' \<in> set (get_triggered_rules LogicEngine s)"
      and "rule_type r' = SAFETY \<and> priority r' \<ge> 90"
    then have "r' \<in> set ?crit" unfolding critical_rules_set by simp
    with top show "priority r' \<le> priority r" unfolding cr by blast
  qed
  obtain valid where v: "get_valid_actions LogicEngine s (ctl_actions c) = Some valid"
    using get_valid_actions_eq[OF assms(1)] by blast
  have dec: "decide (q_agent c) s training (get_triggered_rules LogicEngine s) valid =
               Some (action r, ''safety_critical'', True, [], q_agent c)"
    unfolding decide_def cr by simp
  have safe: "is_action_safe LogicEngine s (action r) = Some (True, [])"
    by (rule critical_action_safe[OF assms(1,2) act])
  obtain ra tr where rec: "get_recommended_action LogicEngine s = (ra, tr)"
    by (cases "get_recommended_action LogicEngine s")
  have "\<exists>info c'. choose_action c s training = Some (action r, info, c') \<and>
           di_decision_type info = Some ''safety_critical'' \<and>
           di_safety_override info \<and> di_violated_rules info = None \<and>
           q_agent c' = q_agent c"
    unfolding choose_action_def assms(3) Let_def rec
    by (simp add: v dec safe)
  with r1 r2 r3 r4 show ?thesis by blast
qed


lemma storm_conditions:
  "condition critical_battery_rule storm_obs = Some False"
  "condition bad_weather_rule storm_obs = Some True"
  "condition return_to_base_rule storm_obs = Some False"
  by (simp_all add: storm_obs_def low_battery_obs_def critical_battery_rule_def
      bad_weather_rule_def return_to_base_rule_def MIN_BATTERY_EMERGENCY_def
      MIN_BATTERY_RETURN_def)

lemma storm_critical:
  "critical_rules (get_triggered_rules LogicEngine storm_obs) = [bad_weather_rule]"
  unfolding critical_rules_triggered by (simp add: storm_conditions)

text \<open>The statement applied to the observation of a storm.\<close>

theorem critical_override_wins_witness:
  "has_safety_keys storm_obs \<and> cardinal_neighbors storm_obs \<and>
   logic_engine (HybridController ACTIONS) = LogicEngine \<and>
   (\<exists>r \<in> set (get_triggered_rules LogicEngine storm_obs). rule_type r = SAFETY \<and> priority r \<ge> 90) \<and>
   (\<exists>info c'. choose_action (HybridController ACTIONS) storm_obs True = Some (''HOVER'', info, c') \<and>
      di_decision_type info = Some ''safety_critical'' \<and> di_violated_rules info = None)"
proof -
  have n: "cardinal_neighbors storm_obs"
    by (auto simp add: cardinal_neighbors_def storm_obs_def low_battery_obs_def split: if_splits)
  have e: "logic_engine (HybridController ACTIONS) = LogicEngine"
    by (simp add: HybridController_def)
  have "bad_weather_rule \<in> set (critical_rules (get_triggered_rules LogicEngine storm_obs))"
    unfolding storm_critical by simp
  then have t: "\<exists>r \<in> set (get_triggered_rules LogicEngine storm_obs). rule_type r = SAFETY \<and> priority r \<ge> 90"
    unfolding critical_rules_set by blast
  from critical_override_wins[OF storm_obs_keys n e t, of True]
  obtain r info c' where
    r: "r \<in> set (get_triggered_rules LogicEngine storm_obs)" "rule_type r = SAFETY" "priority r \<ge> 90"
    and ch: "choose_action (HybridController ACTIONS) storm_obs True = Some (action r, info, c')"
    and di: "di_decision_type info = Some ''safety_critical''" "di_violated_rules info = None"
    by blast
  from r have "r \<in> set (critical_rules (get_triggered_rules LogicEngine storm_obs))"
    unfolding critical_rules_set by simp
  then have "r = bad_weather_rule" unfolding storm_critical by simp
  then have "action r = ''HOVER''" by (simp add: rule_actions)
  with ch di storm_obs_keys n e t show ?thesis by auto
qed

end
